theory Spec2Isabelle
  imports Main "HOL-Library.Sublist"
begin

section \<open>Strings\<close>

text \<open>
  A Python \<open>str\<close> is a sequence of Unicode code points; it is modelled as the list of
  their numbers, so that length, indexing and comparison count what Python counts.
  \<open>ascii\<close> reads an ASCII literal as such a list.
\<close>

type_synonym pystr = "nat list"

definition ascii :: "string \<Rightarrow> pystr" where
  "ascii s = map of_char s"

subsection \<open>Character classes\<close>

text \<open>
  \<open>isspace\<close> is the class that \<open>str.strip()\<close> removes and that \<open>\s\<close> matches in a
  \<open>str\<close> pattern: the code points for which \<open>str.isspace\<close> holds.
\<close>

definition isspace :: "nat \<Rightarrow> bool" where
  "isspace c \<longleftrightarrow>
     (0x09 \<le> c \<and> c \<le> 0x0D) \<or> (0x1C \<le> c \<and> c \<le> 0x20) \<or> c = 0x85 \<or> c = 0xA0
     \<or> c = 0x1680 \<or> (0x2000 \<le> c \<and> c \<le> 0x200A) \<or> c = 0x2028 \<or> c = 0x2029
     \<or> c = 0x202F \<or> c = 0x205F \<or> c = 0x3000"

text \<open>
  \<open>\d\<close> in a \<open>str\<close> pattern matches every decimal digit of Unicode (category Nd), and
  \<open>int\<close> reads every one of them. The digits come in runs of ten, each starting at the
  digit zero of its script; \<open>decimal_zeros\<close> lists the starts (Unicode 14).
\<close>

definition decimal_zeros :: "nat list" where
  "decimal_zeros =
    [0x0030, 0x0660, 0x06F0, 0x07C0, 0x0966, 0x09E6, 0x0A66, 0x0AE6,
     0x0B66, 0x0BE6, 0x0C66, 0x0CE6, 0x0D66, 0x0DE6, 0x0E50, 0x0ED0,
     0x0F20, 0x1040, 0x1090, 0x17E0, 0x1810, 0x1946, 0x19D0, 0x1A80,
     0x1A90, 0x1B50, 0x1BB0, 0x1C40, 0x1C50, 0xA620, 0xA8D0, 0xA900,
     0xA9D0, 0xA9F0, 0xAA50, 0xABF0, 0xFF10, 0x104A0, 0x10D30, 0x11066,
     0x110F0, 0x11136, 0x111D0, 0x112F0, 0x11450, 0x114D0, 0x11650, 0x116C0,
     0x11730, 0x118E0, 0x11950, 0x11C50, 0x11D50, 0x11DA0, 0x16A60, 0x16AC0,
     0x16B50, 0x1D7CE, 0x1D7D8, 0x1D7E2, 0x1D7EC, 0x1D7F6, 0x1E140, 0x1E2F0,
     0x1E950, 0x1FBF0]"

definition decimal :: "nat \<Rightarrow> nat option" where
  "decimal c =
     (case find (\<lambda>z. z \<le> c \<and> c < z + 10) decimal_zeros of
        None \<Rightarrow> None
      | Some z \<Rightarrow> Some (c - z))"

definition isdecimal :: "nat \<Rightarrow> bool" where
  "isdecimal c \<longleftrightarrow> decimal c \<noteq> None"

subsection \<open>Methods of \<open>str\<close>\<close>

definition lstrip :: "pystr \<Rightarrow> pystr" where
  "lstrip s = dropWhile isspace s"

definition rstrip :: "pystr \<Rightarrow> pystr" where
  "rstrip s = rev (dropWhile isspace (rev s))"

definition strip :: "pystr \<Rightarrow> pystr" where
  "strip s = rstrip (lstrip s)"

text \<open>
  Writing a text to a file opened with \<open>encoding="utf-8"\<close> raises \<open>UnicodeEncodeError\<close> when
  the text holds a surrogate code point (U+D800 to U+DFFF), which a \<open>str\<close> may hold and
  UTF-8 cannot encode.
\<close>

definition is_surrogate :: "nat \<Rightarrow> bool" where
  "is_surrogate c \<longleftrightarrow> 0xD800 \<le> c \<and> c \<le> 0xDFFF"

definition utf8_encodable :: "pystr \<Rightarrow> bool" where
  "utf8_encodable s = list_all (\<lambda>c. \<not> is_surrogate c) s"

text \<open>\<open>s.rstrip(chars)\<close>: the trailing characters that occur in \<open>chars\<close> are removed.\<close>

definition rstrip_chars :: "pystr \<Rightarrow> pystr \<Rightarrow> pystr" where
  "rstrip_chars chars s = rev (dropWhile (\<lambda>c. c \<in> set chars) (rev s))"

text \<open>\<open>s.replace(old, new)\<close> for an \<open>old\<close> of one character.\<close>

definition replace_char :: "nat \<Rightarrow> pystr \<Rightarrow> pystr \<Rightarrow> pystr" where
  "replace_char old new s = concat (map (\<lambda>c. if c = old then new else [c]) s)"

text \<open>\<open>needle in haystack\<close>: the needle starts at some position of the haystack.\<close>

fun contains :: "pystr \<Rightarrow> pystr \<Rightarrow> bool" where
  "contains needle [] \<longleftrightarrow> needle = []"
| "contains needle (c # cs) \<longleftrightarrow> prefix needle (c # cs) \<or> contains needle cs"

text \<open>\<open>str(n)\<close> for a natural number: its decimal digits.\<close>

fun digits10 :: "nat \<Rightarrow> pystr" where
  "digits10 n = (if n < 10 then [48 + n] else digits10 (n div 10) @ [48 + n mod 10])"

declare digits10.simps [simp del]

text \<open>
  \<open>format(n, "0wd")\<close>: the decimal digits, filled with zeros after the sign up to the
  width \<open>w\<close>.
\<close>

definition zero_pad :: "nat \<Rightarrow> pystr \<Rightarrow> pystr" where
  "zero_pad width ds = replicate (width - length ds) 48 @ ds"

definition format_0d :: "nat \<Rightarrow> int \<Rightarrow> pystr" where
  "format_0d width n =
     (if n < 0 then 45 # zero_pad (width - 1) (digits10 (nat (- n)))
      else zero_pad width (digits10 (nat n)))"

section \<open>Exceptions\<close>

text \<open>
  The exception classes that the program meets. \<open>RequestException\<close> stands for
  \<open>requests.RequestException\<close> and its subclasses (connection errors, timeouts,
  \<open>HTTPError\<close>) and carries \<open>str(error)\<close>; \<open>OSError\<close> stands for itself and its subclasses
  (\<open>FileNotFoundError\<close>, \<open>PermissionError\<close>, \<open>IsADirectoryError\<close>); \<open>OtherError\<close> is an
  exception of any class not listed. \<open>NotModelled\<close> is no Python exception: it marks a run
  that Python continues with an \<open>Event\<close> holding a value outside the field type the
  dataclass declares, which the typed events of this model cannot follow.
\<close>

datatype py_exn =
    RequestException pystr
  | ValueError
  | JSONDecodeError
  | UnicodeEncodeError
  | UnicodeDecodeError
  | KeyError pystr
  | TypeError
  | OSError
  | OtherError pystr
  | NotModelled

text \<open>\<open>isinstance(error, requests.RequestException)\<close> and \<open>isinstance(error, ValueError)\<close>.\<close>

fun is_RequestException :: "py_exn \<Rightarrow> bool" where
  "is_RequestException (RequestException msg) = True"
| "is_RequestException _ = False"

fun is_ValueError :: "py_exn \<Rightarrow> bool" where
  "is_ValueError ValueError = True"
| "is_ValueError JSONDecodeError = True"
| "is_ValueError UnicodeEncodeError = True"
| "is_ValueError UnicodeDecodeError = True"
| "is_ValueError _ = False"

fun exn_str :: "py_exn \<Rightarrow> pystr" where
  "exn_str (RequestException msg) = msg"
| "exn_str (KeyError k) = [39] @ k @ [39]"
| "exn_str (OtherError msg) = msg"
| "exn_str _ = []"

text \<open>Sequencing of two steps of which the first may raise.\<close>

definition and_then :: "py_exn + 'a \<Rightarrow> ('a \<Rightarrow> py_exn + 'b) \<Rightarrow> py_exn + 'b" where
  "and_then r f = (case r of Inl e \<Rightarrow> Inl e | Inr v \<Rightarrow> f v)"

text \<open>\<open>d[k]\<close> on a dictionary, kept as an association list.\<close>

definition getitem :: "(pystr \<times> 'a) list \<Rightarrow> pystr \<Rightarrow> py_exn + 'a" where
  "getitem d k = (case map_of d k of None \<Rightarrow> Inl (KeyError k) | Some v \<Rightarrow> Inr v)"

section \<open>Reading integers\<close>

text \<open>
  \<open>int(s)\<close> for a string: surrounding whitespace is dropped, a sign may come first, the
  digits may be any decimal digits of Unicode with single underscores between them, and
  more than 4300 digits are refused. Anything else raises \<open>ValueError\<close>.
\<close>

fun digits_tail :: "pystr \<Rightarrow> bool" where
  "digits_tail [] = True"
| "digits_tail (c # cs) =
     (if isdecimal c then digits_tail cs
      else c = 95 \<and> (case cs of [] \<Rightarrow> False | d # ds \<Rightarrow> isdecimal d \<and> digits_tail ds))"

definition int_literal :: "pystr \<Rightarrow> bool" where
  "int_literal body = (case body of [] \<Rightarrow> False | c # cs \<Rightarrow> isdecimal c \<and> digits_tail cs)"

definition digits_value :: "pystr \<Rightarrow> nat" where
  "digits_value ds = foldl (\<lambda>a c. 10 * a + (case decimal c of None \<Rightarrow> 0 | Some v \<Rightarrow> v)) 0 ds"

definition py_int :: "pystr \<Rightarrow> py_exn + int" where
  "py_int s =
     (let t = strip s;
          negative = (case t of [] \<Rightarrow> False | c # cs \<Rightarrow> c = 45);
          body = (case t of [] \<Rightarrow> [] | c # cs \<Rightarrow> if c = 45 \<or> c = 43 then cs else t);
          ds = filter (\<lambda>c. c \<noteq> 95) body
      in if int_literal body \<and> length ds \<le> 4300
         then Inr (if negative then - int (digits_value ds) else int (digits_value ds))
         else Inl ValueError)"

section \<open>Regular expressions\<close>

text \<open>
  The patterns of this program are built from character classes, sequence and ordered
  choice. A pattern is modelled by the list of all the ways it matches a prefix of the
  text (the matched part and the rest), in the order in which the backtracking matcher of
  \<open>re\<close> tries them; the match that \<open>re\<close> reports is the first one of the whole
  pattern.
\<close>

type_synonym matcher = "pystr \<Rightarrow> (pystr \<times> pystr) list"

definition re_class :: "(nat \<Rightarrow> bool) \<Rightarrow> matcher" where
  "re_class P s = (case s of [] \<Rightarrow> [] | c # cs \<Rightarrow> if P c then [([c], cs)] else [])"

definition re_seq :: "matcher \<Rightarrow> matcher \<Rightarrow> matcher" where
  "re_seq p q s = [(a @ b, r'). (a, r) \<leftarrow> p s, (b, r') \<leftarrow> q r]"

definition re_alt :: "matcher \<Rightarrow> matcher \<Rightarrow> matcher" where
  "re_alt p q s = p s @ q s"

definition re_char :: "nat \<Rightarrow> matcher" where
  "re_char k = re_class (\<lambda>c. c = k)"

definition re_range :: "nat \<Rightarrow> nat \<Rightarrow> matcher" where
  "re_range lo hi = re_class (\<lambda>c. lo \<le> c \<and> c \<le> hi)"

definition re_digit :: matcher where
  "re_digit = re_class isdecimal"

section \<open>Dates\<close>

subsection \<open>\<open>datetime.strptime\<close> and \<open>strftime\<close>\<close>

text \<open>
  \<open>strptime\<close> turns each directive of the format into a group of a regular expression:
  \<open>%Y\<close> into \<open>\d\d\d\d\<close>, \<open>%m\<close> into \<open>1[0-2]|0[1-9]|[1-9]\<close> and \<open>%d\<close> into
  \<open>3[0-1]|[1-2]\d|0[1-9]|[1-9]| [1-9]\<close>.
\<close>

definition re_Y :: matcher where
  "re_Y = re_seq re_digit (re_seq re_digit (re_seq re_digit re_digit))"

definition re_m :: matcher where
  "re_m = re_alt (re_seq (re_char 49) (re_range 48 50))
            (re_alt (re_seq (re_char 48) (re_range 49 57)) (re_range 49 57))"

definition re_d :: matcher where
  "re_d = re_alt (re_seq (re_char 51) (re_range 48 49))
            (re_alt (re_seq (re_range 49 50) re_digit)
              (re_alt (re_seq (re_char 48) (re_range 49 57))
                (re_alt (re_range 49 57) (re_seq (re_char 32) (re_range 49 57)))))"

text \<open>
  Each of the three formats in \<open>DATE_PATTERNS\<close> is \<open>%Y\<close>, \<open>%m\<close> and \<open>%d\<close> joined by one
  separator character; a format is named here by its separator. \<open>format_regex\<close> is the
  compiled format with its groups \<open>Y\<close>, \<open>m\<close> and \<open>d\<close>.
\<close>

definition DATE_PATTERNS :: "nat list" where
  "DATE_PATTERNS = [45, 47, 46]"

definition format_regex :: "nat \<Rightarrow> pystr \<Rightarrow> ((pystr \<times> pystr \<times> pystr) \<times> pystr) list" where
  "format_regex sep s =
     [((y, m, d), r5).
        (y, r1) \<leftarrow> re_Y s, (s1, r2) \<leftarrow> re_char sep r1, (m, r3) \<leftarrow> re_m r2,
        (s2, r4) \<leftarrow> re_char sep r3, (d, r5) \<leftarrow> re_d r4]"

definition is_leap :: "int \<Rightarrow> bool" where
  "is_leap y \<longleftrightarrow> y mod 4 = 0 \<and> (y mod 100 \<noteq> 0 \<or> y mod 400 = 0)"

definition days_in_month :: "int \<Rightarrow> int \<Rightarrow> int" where
  "days_in_month y m =
     (if m = 2 then (if is_leap y then 29 else 28)
      else if m = 4 \<or> m = 6 \<or> m = 9 \<or> m = 11 then 30 else 31)"

text \<open>The check of the \<open>date\<close> constructor: years 1 to 9999, and a day of the month.\<close>

definition valid_date :: "int \<Rightarrow> int \<Rightarrow> int \<Rightarrow> bool" where
  "valid_date y m d \<longleftrightarrow>
     1 \<le> y \<and> y \<le> 9999 \<and> 1 \<le> m \<and> m \<le> 12 \<and> 1 \<le> d \<and> d \<le> days_in_month y m"

text \<open>
  \<open>strptime\<close> raises \<open>ValueError\<close> when the format does not match at the start of the
  text, when text remains after the match, and when the numbers are no date.
\<close>

definition strptime :: "pystr \<Rightarrow> nat \<Rightarrow> py_exn + (int \<times> int \<times> int)" where
  "strptime data_string sep =
     (case format_regex sep data_string of
        [] \<Rightarrow> Inl ValueError
      | ((y, m, d), rest) # _ \<Rightarrow>
          if rest \<noteq> [] then Inl ValueError
          else and_then (py_int y) (\<lambda>year.
               and_then (py_int m) (\<lambda>month.
               and_then (py_int d) (\<lambda>day.
                 if valid_date year month day then Inr (year, month, day)
                 else Inl ValueError))))"

text \<open>
  \<open>strftime("%Y-%m-%d")\<close> as the C library of the platform (glibc) prints it: \<open>%Y\<close> is the
  year in decimal with no leading zeros, so a year below 1000 has fewer than four digits;
  \<open>%m\<close> and \<open>%d\<close> have two digits.
\<close>

definition strftime :: "int \<times> int \<times> int \<Rightarrow> pystr" where
  "strftime dt =
     (case dt of (y, m, d) \<Rightarrow> digits10 (nat y) @ [45] @ format_0d 2 m @ [45] @ format_0d 2 d)"

subsection \<open>\<open>normalize_date\<close>\<close>

text \<open>\<open>re.sub(r"\s+", " ", value)\<close>: every maximal run of whitespace becomes one space.\<close>

function re_sub_spaces :: "pystr \<Rightarrow> pystr" where
  "re_sub_spaces [] = []"
| "re_sub_spaces (c # cs) =
     (if isspace c then 32 # re_sub_spaces (dropWhile isspace cs) else c # re_sub_spaces cs)"
  by pat_completeness auto
termination
  by (relation "measure length") (auto simp: length_dropWhile_le less_Suc_eq_le)

text \<open>
  The pattern \<open>(\d{4})[-/.](\d{1,2})[-/.](\d{1,2})\<close> with its three groups;
  \<open>\d{1,2}\<close> is greedy, so two digits are tried before one.
\<close>

definition re_sep :: matcher where
  "re_sep = re_class (\<lambda>c. c = 45 \<or> c = 47 \<or> c = 46)"

definition re_digit12 :: matcher where
  "re_digit12 = re_alt (re_seq re_digit re_digit) re_digit"

definition date_regex :: "pystr \<Rightarrow> ((pystr \<times> pystr \<times> pystr) \<times> pystr) list" where
  "date_regex s =
     [((y, m, d), r5).
        (y, r1) \<leftarrow> re_Y s, (s1, r2) \<leftarrow> re_sep r1, (m, r3) \<leftarrow> re_digit12 r2,
        (s2, r4) \<leftarrow> re_sep r3, (d, r5) \<leftarrow> re_digit12 r4]"

text \<open>\<open>re.search\<close>: the first match at the leftmost position that has one.\<close>

fun re_search :: "pystr \<Rightarrow> (pystr \<times> pystr \<times> pystr) option" where
  "re_search [] = (case date_regex [] of [] \<Rightarrow> None | (g, rest) # _ \<Rightarrow> Some g)"
| "re_search (c # cs) =
     (case date_regex (c # cs) of [] \<Rightarrow> re_search cs | (g, rest) # _ \<Rightarrow> Some g)"

text \<open>
  The loop over \<open>DATE_PATTERNS\<close>: the first format that parses returns; a \<open>ValueError\<close>
  moves on to the next format, any other exception leaves the function. After the loop
  comes the regular expression, and last the cleaned text itself.
\<close>

fun try_patterns :: "nat list \<Rightarrow> pystr \<Rightarrow> py_exn + pystr" where
  "try_patterns [] val =
     (case re_search val of
        Some (year, month, day) \<Rightarrow>
          and_then (py_int month) (\<lambda>m.
          and_then (py_int day) (\<lambda>d.
            Inr (year @ [45] @ format_0d 2 m @ [45] @ format_0d 2 d)))
      | None \<Rightarrow> Inr val)"
| "try_patterns (pattern # patterns) val =
     (case strptime val pattern of
        Inr dt \<Rightarrow> Inr (strftime dt)
      | Inl e \<Rightarrow> if is_ValueError e then try_patterns patterns val else Inl e)"

text \<open>The text after the three cleaning steps of \<open>normalize_date\<close>.\<close>

definition clean_date :: "pystr \<Rightarrow> pystr" where
  "clean_date val =
     (let v1 = strip val;
          v2 = re_sub_spaces v1
      in replace_char 0x65E5 [] (replace_char 0x6708 [45] (replace_char 0x5E74 [45] v2)))"

definition normalize_date :: "pystr \<Rightarrow> py_exn + pystr" where
  "normalize_date val = try_patterns DATE_PATTERNS (clean_date val)"

section \<open>Registration status\<close>

text \<open>The four keywords of \<open>guess_open_status\<close>, in the order of the tuple.\<close>

definition KEYWORDS :: "pystr list" where
  "KEYWORDS =
     [[0x5831, 0x540D, 0x4E2D], [0x958B, 0x653E], [0x53EF, 0x5831, 0x540D],
      [0x7ACB, 0x5373, 0x5831, 0x540D]]"

definition guess_open_status :: "pystr \<Rightarrow> bool" where
  "guess_open_status text =
     (let t = strip text in list_ex (\<lambda>keyword. contains keyword t) KEYWORDS)"

section \<open>Events\<close>

text \<open>The dataclass \<open>Event\<close>, with the field types it declares.\<close>

record event =
  name :: pystr
  location :: pystr
  race_date :: pystr
  registration_deadline :: pystr
  registration_open :: bool
  website :: pystr
  source :: pystr

section \<open>Extraction from a page\<close>

text \<open>
  A parsed page is seen by the program only through \<open>select\<close>, \<open>select_one\<close>,
  \<open>get_text(strip=True)\<close> and \<open>get\<close>. A tag is therefore modelled by what these
  return: its stripped text, its attributes, and the tags that each selector finds below
  it, in document order.
\<close>

datatype tag = Tag (get_text_strip: pystr) (attrs: "(pystr \<times> pystr) list")
  (found: "(pystr \<times> tag list) list")

definition select :: "tag \<Rightarrow> pystr \<Rightarrow> tag list" where
  "select t selector = (case map_of (found t) selector of None \<Rightarrow> [] | Some ts \<Rightarrow> ts)"

definition select_one :: "tag \<Rightarrow> pystr \<Rightarrow> tag option" where
  "select_one t selector = (case select t selector of [] \<Rightarrow> None | x # _ \<Rightarrow> Some x)"

definition tag_get :: "tag \<Rightarrow> pystr \<Rightarrow> pystr \<Rightarrow> pystr" where
  "tag_get t key dflt = (case map_of (attrs t) key of None \<Rightarrow> dflt | Some v \<Rightarrow> v)"

text \<open>
  The body of the loop over the items: the six selections, the test of the four required
  elements (\<open>None\<close> is the \<open>continue\<close>), and the construction of the event.
\<close>

definition extract_item ::
  "pystr \<Rightarrow> pystr \<Rightarrow> (pystr \<times> pystr) list \<Rightarrow> tag \<Rightarrow> py_exn + event option" where
  "extract_item url src selectors item =
     and_then (getitem selectors (ascii ''name'')) (\<lambda>s1.
     and_then (getitem selectors (ascii ''race_date'')) (\<lambda>s2.
     and_then (getitem selectors (ascii ''location'')) (\<lambda>s3.
     and_then (getitem selectors (ascii ''deadline'')) (\<lambda>s4.
     and_then (getitem selectors (ascii ''status'')) (\<lambda>s5.
     and_then (getitem selectors (ascii ''link'')) (\<lambda>s6.
       let name_el = select_one item s1;
           date_el = select_one item s2;
           location_el = select_one item s3;
           deadline_el = select_one item s4;
           status_el = select_one item s5;
           link_el = select_one item s6
       in case (name_el, date_el, location_el, link_el) of
            (Some n, Some d, Some l, Some a) \<Rightarrow>
              and_then (normalize_date (get_text_strip d)) (\<lambda>rdate.
              and_then (case deadline_el of
                          None \<Rightarrow> Inr []
                        | Some dl \<Rightarrow> normalize_date (get_text_strip dl)) (\<lambda>deadline.
                let status_text = (case status_el of None \<Rightarrow> [] | Some s \<Rightarrow> get_text_strip s);
                    href = tag_get a (ascii ''href'') [];
                    link = (if href \<noteq> [] \<and> prefix [47] href
                            then rstrip_chars [47] url @ href else href)
                in Inr (Some \<lparr>name = get_text_strip n, location = get_text_strip l,
                              race_date = rdate, registration_deadline = deadline,
                              registration_open = guess_open_status status_text,
                              website = link, source = src\<rparr>)))
          | _ \<Rightarrow> Inr None))))))"

fun extract_loop ::
  "pystr \<Rightarrow> pystr \<Rightarrow> (pystr \<times> pystr) list \<Rightarrow> tag list \<Rightarrow> event list \<Rightarrow> py_exn + event list"
where
  "extract_loop url src selectors [] events = Inr events"
| "extract_loop url src selectors (item # items) events =
     (case extract_item url src selectors item of
        Inl e \<Rightarrow> Inl e
      | Inr None \<Rightarrow> extract_loop url src selectors items events
      | Inr (Some ev) \<Rightarrow> extract_loop url src selectors items (events @ [ev]))"

text \<open>
  What \<open>requests.get\<close> gives for a URL: an exception, or a response with its status and
  the page that \<open>BeautifulSoup\<close> makes of its text (or the exception that the parser
  raises). The network is a function from URLs to these.
\<close>

record response =
  status_code :: nat
  reason :: pystr
  response_url :: pystr
  soup :: "py_exn + tag"

type_synonym network = "pystr \<Rightarrow> py_exn + response"

text \<open>\<open>raise_for_status\<close>: an \<open>HTTPError\<close> for the statuses 400 to 599.\<close>

definition raise_for_status :: "response \<Rightarrow> py_exn + unit" where
  "raise_for_status r =
     (if 400 \<le> status_code r \<and> status_code r < 500
      then Inl (RequestException (digits10 (status_code r) @ ascii '' Client Error: ''
                  @ reason r @ ascii '' for url: '' @ response_url r))
      else if 500 \<le> status_code r \<and> status_code r < 600
      then Inl (RequestException (digits10 (status_code r) @ ascii '' Server Error: ''
                  @ reason r @ ascii '' for url: '' @ response_url r))
      else Inr ())"

definition extract_generic ::
  "network \<Rightarrow> pystr \<Rightarrow> pystr \<Rightarrow> (pystr \<times> pystr) list \<Rightarrow> py_exn + event list" where
  "extract_generic net url src selectors =
     and_then (net url) (\<lambda>resp.
     and_then (raise_for_status resp) (\<lambda>u.
     and_then (soup resp) (\<lambda>page.
     and_then (getitem selectors (ascii ''item'')) (\<lambda>s0.
       extract_loop url src selectors (select page s0) []))))"

definition fetch_irunner :: "network \<Rightarrow> py_exn + event list" where
  "fetch_irunner net =
     extract_generic net (ascii ''https://www.irunner.com.tw/'') (ascii ''iRunner'')
       [(ascii ''item'', ascii ''.race_list li''),
        (ascii ''name'', ascii ''.race_name''),
        (ascii ''race_date'', ascii ''.race_date''),
        (ascii ''location'', ascii ''.race_city''),
        (ascii ''deadline'', ascii ''.race_signup''),
        (ascii ''status'', ascii ''.race_status''),
        (ascii ''link'', ascii ''a'')]"

definition fetch_running_biji :: "network \<Rightarrow> py_exn + event list" where
  "fetch_running_biji net =
     extract_generic net (ascii ''https://www.running.biji.co/index.php?q=competition'')
       [0x8DD1, 0x6B65, 0x7B46, 0x8A18]
       [(ascii ''item'', ascii ''.competition-list .item''),
        (ascii ''name'', ascii ''.title''),
        (ascii ''race_date'', ascii ''.date''),
        (ascii ''location'', ascii ''.location''),
        (ascii ''deadline'', ascii ''.signup''),
        (ascii ''status'', ascii ''.status''),
        (ascii ''link'', ascii ''a'')]"

definition fetch_sponet :: "network \<Rightarrow> py_exn + event list" where
  "fetch_sponet net =
     extract_generic net (ascii ''https://www.sponet.tw/'') (ascii ''SPORTNET'')
       [(ascii ''item'', ascii ''.event-list .event-item''),
        (ascii ''name'', ascii ''.event-title''),
        (ascii ''race_date'', ascii ''.event-date''),
        (ascii ''location'', ascii ''.event-location''),
        (ascii ''deadline'', ascii ''.event-deadline''),
        (ascii ''status'', ascii ''.event-status''),
        (ascii ''link'', ascii ''a'')]"

section \<open>Removing duplicates\<close>

text \<open>
  \<open>dedupe_events\<close>: one pass over the events with the set \<open>seen\<close> of the keys met so far
  and the list \<open>output\<close>; \<open>event_key\<close> is the tuple that the loop body binds to \<open>key\<close>.
\<close>

definition event_key :: "event \<Rightarrow> pystr \<times> pystr \<times> pystr" where
  "event_key e = (name e, race_date e, location e)"

fun dedupe_loop ::
  "event list \<Rightarrow> (pystr \<times> pystr \<times> pystr) set \<Rightarrow> event list \<Rightarrow> event list" where
  "dedupe_loop [] seen output = output"
| "dedupe_loop (e # es) seen output =
     (let key = event_key e
      in if key \<in> seen then dedupe_loop es seen output
         else dedupe_loop es (insert key seen) (output @ [e]))"

definition dedupe_events :: "event list \<Rightarrow> event list" where
  "dedupe_events events = dedupe_loop events {} []"

section \<open>The persisted document\<close>

text \<open>
  The values that \<open>json.load\<close> returns and \<open>json.dump\<close> takes; an object is kept as an
  association list in the order of its keys, and is read with \<open>map_of\<close>. Numbers with a
  fraction are left out.
\<close>

datatype json =
    JNull
  | JBool bool
  | JNumber int
  | JString pystr
  | JArray "json list"
  | JObject "(pystr \<times> json) list"

text \<open>
  A file is modelled by what reading it as UTF-8 and \<open>json.load\<close> make of it: the document
  that its text denotes, text that is no JSON document, or bytes that are no UTF-8. The
  text that \<open>json.dump\<close> writes for a document, with the newline that follows it, denotes
  that document. The files are the contents of the paths that exist, and the paths that
  \<open>open(path, "w")\<close> refuses with an \<open>OSError\<close> (a missing directory, a directory, a
  missing permission).
\<close>

datatype file_content = Json_text json | Other_text | Other_bytes

record filesystem =
  contents :: "pystr \<Rightarrow> file_content option"
  refused :: "pystr \<Rightarrow> bool"

text \<open>\<open>v[key]\<close> for a string key: only a dictionary has one.\<close>

definition subscript :: "json \<Rightarrow> pystr \<Rightarrow> py_exn + json" where
  "subscript v key =
     (case v of
        JObject kvs \<Rightarrow> (case map_of kvs key of None \<Rightarrow> Inl (KeyError key) | Some x \<Rightarrow> Inr x)
      | _ \<Rightarrow> Inl TypeError)"

text \<open>
  \<open>for item in v\<close>: a list gives its elements, a dictionary its keys and a string its
  characters; nothing else can be iterated.
\<close>

definition py_iter :: "json \<Rightarrow> py_exn + json list" where
  "py_iter v =
     (case v of
        JArray xs \<Rightarrow> Inr xs
      | JObject kvs \<Rightarrow> Inr (map JString (remdups (map fst kvs)))
      | JString s \<Rightarrow> Inr (map (\<lambda>c. JString [c]) s)
      | _ \<Rightarrow> Inl TypeError)"

text \<open>The seven subscripts of one item, in the order of the keyword arguments.\<close>

definition EVENT_KEYS :: "pystr list" where
  "EVENT_KEYS =
     [ascii ''name'', ascii ''location'', ascii ''raceDate'', ascii ''registrationDeadline'',
      ascii ''registrationOpen'', ascii ''website'', ascii ''source'']"

fun subscripts :: "json \<Rightarrow> pystr list \<Rightarrow> py_exn + json list" where
  "subscripts item [] = Inr []"
| "subscripts item (k # ks) =
     and_then (subscript item k) (\<lambda>v. and_then (subscripts item ks) (\<lambda>vs. Inr (v # vs)))"

fun load_items :: "json list \<Rightarrow> py_exn + json list list" where
  "load_items [] = Inr []"
| "load_items (item # items) =
     and_then (subscripts item EVENT_KEYS) (\<lambda>vs.
     and_then (load_items items) (\<lambda>rest. Inr (vs # rest)))"

text \<open>
  The event of seven values, when they have the types that the dataclass declares.
  Python builds the \<open>Event\<close> whatever the values are; the events of this model are typed,
  and \<open>load_fallback_events\<close> answers \<open>NotModelled\<close> for a document that Python loads into
  events with other values.
\<close>

fun as_str :: "json \<Rightarrow> pystr option" where
  "as_str (JString s) = Some s"
| "as_str _ = None"

fun as_bool :: "json \<Rightarrow> bool option" where
  "as_bool (JBool b) = Some b"
| "as_bool _ = None"

definition typed_event :: "json list \<Rightarrow> event option" where
  "typed_event vs =
     (case vs of
        [v1, v2, v3, v4, v5, v6, v7] \<Rightarrow>
          (case (as_str v1, as_str v2, as_str v3, as_str v4, as_bool v5, as_str v6, as_str v7) of
             (Some n, Some l, Some rd, Some dl, Some ro, Some w, Some s) \<Rightarrow>
               Some \<lparr>name = n, location = l, race_date = rd, registration_deadline = dl,
                     registration_open = ro, website = w, source = s\<rparr>
           | _ \<Rightarrow> None)
      | _ \<Rightarrow> None)"

definition load_fallback_events :: "filesystem \<Rightarrow> pystr \<Rightarrow> py_exn + event list" where
  "load_fallback_events fs path =
     (case contents fs path of
        None \<Rightarrow> Inl OSError
      | Some Other_bytes \<Rightarrow> Inl UnicodeDecodeError
      | Some Other_text \<Rightarrow> Inl JSONDecodeError
      | Some (Json_text data) \<Rightarrow>
          and_then (subscript data (ascii ''events'')) (\<lambda>evs.
          and_then (py_iter evs) (\<lambda>items.
          and_then (load_items items) (\<lambda>rows.
            case those (map typed_event rows) of
              None \<Rightarrow> Inl NotModelled
            | Some events \<Rightarrow> Inr events))))"

text \<open>
  The document that \<open>write_events\<close> builds; \<open>now\<close> is the text of
  \<open>datetime.now().astimezone().isoformat(timespec="seconds")\<close> at the time of the call.
\<close>

definition event_json :: "event \<Rightarrow> json" where
  "event_json e =
     JObject
       [(ascii ''name'', JString (name e)),
        (ascii ''location'', JString (location e)),
        (ascii ''raceDate'', JString (race_date e)),
        (ascii ''registrationDeadline'', JString (registration_deadline e)),
        (ascii ''registrationOpen'', JBool (registration_open e)),
        (ascii ''website'', JString (website e)),
        (ascii ''source'', JString (source e))]"

definition payload :: "pystr \<Rightarrow> event list \<Rightarrow> json" where
  "payload now events =
     JObject [(ascii ''generatedAt'', JString now),
              (ascii ''events'', JArray (map event_json events))]"

text \<open>
  \<open>json.dump(..., ensure_ascii=False)\<close> writes every string of the document as it is, so
  the write to the UTF-8 file succeeds exactly when no key and no string of the document
  holds a surrogate.
\<close>

fun encodable :: "json \<Rightarrow> bool" where
  "encodable (JString s) = utf8_encodable s"
| "encodable (JArray xs) = list_all encodable xs"
| "encodable (JObject kvs) = list_all (\<lambda>kv. utf8_encodable (fst kv) \<and> encodable (snd kv)) kvs"
| "encodable _ = True"

text \<open>
  \<open>write_events\<close> returns the files after the call and the exception that it raised, if
  any. \<open>open\<close> raises \<open>OSError\<close> for a refused path and leaves the files as they were.
  Otherwise the file is created or emptied, and \<open>json.dump\<close> writes the document piece by
  piece: when a piece cannot be encoded, \<open>UnicodeEncodeError\<close> is raised and the file is
  left with the beginning of the text, which is no JSON document.
\<close>

definition write_events ::
  "filesystem \<Rightarrow> pystr \<Rightarrow> pystr \<Rightarrow> event list \<Rightarrow> filesystem \<times> py_exn option" where
  "write_events fs now path events =
     (let doc = payload now events
      in if refused fs path then (fs, Some OSError)
         else if encodable doc
         then (fs\<lparr>contents := (contents fs)(path \<mapsto> Json_text doc)\<rparr>, None)
         else (fs\<lparr>contents := (contents fs)(path \<mapsto> Other_text)\<rparr>, Some UnicodeEncodeError))"

section \<open>The run\<close>

text \<open>
  The command line after \<open>parse_args\<close> (the values of \<open>--output\<close> and \<open>--fallback\<close>), and
  what a run leaves: the lines printed, the files, and the exception that ended the run,
  if one did.
\<close>

record args =
  output_path :: pystr
  fallback_path :: pystr

record run =
  printed :: "pystr list"
  files :: filesystem
  raised :: "py_exn option"

text \<open>The three fetchers, each with its \<open>__name__\<close>.\<close>

definition FETCHERS :: "(pystr \<times> (network \<Rightarrow> py_exn + event list)) list" where
  "FETCHERS =
     [(ascii ''fetch_irunner'', fetch_irunner),
      (ascii ''fetch_running_biji'', fetch_running_biji),
      (ascii ''fetch_sponet'', fetch_sponet)]"

definition warning :: "pystr \<Rightarrow> py_exn \<Rightarrow> pystr" where
  "warning fname error =
     [0x8B66, 0x544A, 58, 32, 0x7121, 0x6CD5, 0x6293, 0x53D6, 32] @ fname @ [58, 32]
       @ exn_str error"

definition fallback_notice :: pystr where
  "fallback_notice =
     [0x672A, 0x53D6, 0x5F97, 0x4EFB, 0x4F55, 0x8CFD, 0x4E8B, 0xFF0C, 0x6539, 0x7528, 32]
       @ ascii ''fallback'' @ [32, 0x8CC7, 0x6599, 0x3002]"

definition summary :: "nat \<Rightarrow> pystr \<Rightarrow> pystr" where
  "summary n path =
     [0x5DF2, 0x8F38, 0x51FA, 32] @ digits10 n @ [32, 0x5834, 0x8CFD, 0x4E8B, 0x81F3, 32] @ path"

text \<open>
  The loop over the fetchers: a \<open>RequestException\<close> is printed as a warning and the loop
  goes on; any other exception leaves the loop and the run.
\<close>

fun fetch_loop ::
  "(pystr \<times> (network \<Rightarrow> py_exn + event list)) list \<Rightarrow> network \<Rightarrow> event list \<Rightarrow> pystr list
     \<Rightarrow> pystr list \<times> (py_exn + event list)" where
  "fetch_loop [] net events out = (out, Inr events)"
| "fetch_loop ((fname, fetcher) # rest) net events out =
     (case fetcher net of
        Inr got \<Rightarrow> fetch_loop rest net (events @ got) out
      | Inl error \<Rightarrow>
          if is_RequestException error
          then fetch_loop rest net events (out @ [warning fname error])
          else (out, Inl error))"

text \<open>
  The rest of \<open>main\<close>, from the test of the accumulated list on: the fallback, the removal
  of duplicates, the write and the summary. An exception of the load or of the write ends
  the run before the summary.
\<close>

definition finish :: "filesystem \<Rightarrow> pystr \<Rightarrow> args \<Rightarrow> pystr list \<Rightarrow> event list \<Rightarrow> run" where
  "finish fs now a out events =
     (let out1 = (if events = [] then out @ [fallback_notice] else out);
          loaded = (if events = [] then load_fallback_events fs (fallback_path a) else Inr events)
      in case loaded of
           Inl e \<Rightarrow> \<lparr>printed = out1, files = fs, raised = Some e\<rparr>
         | Inr events1 \<Rightarrow>
             (let events2 = dedupe_events events1
              in case write_events fs now (output_path a) events2 of
                   (fs1, Some e) \<Rightarrow> \<lparr>printed = out1, files = fs1, raised = Some e\<rparr>
                 | (fs1, None) \<Rightarrow>
                     \<lparr>printed = out1 @ [summary (length events2) (output_path a)],
                      files = fs1, raised = None\<rparr>))"

definition main :: "network \<Rightarrow> filesystem \<Rightarrow> pystr \<Rightarrow> args \<Rightarrow> run" where
  "main net fs now a =
     (case fetch_loop FETCHERS net [] [] of
        (out, Inl e) \<Rightarrow> \<lparr>printed = out, files = fs, raised = Some e\<rparr>
      | (out, Inr events) \<Rightarrow> finish fs now a out events)"

section \<open>Sample inputs\<close>

text \<open>
  Inputs for the examples: a list item of the first site with the four required elements
  and neither deadline nor status, one without its name element, a page holding both,
  the event that the complete item gives, and two networks. On the first network the
  second site times out and the third has an empty page; on the second the first site
  times out and the parser rejects every page.
\<close>

definition sample_item :: tag where
  "sample_item =
     Tag [] []
       [(ascii ''.race_name'', [Tag (ascii ''Taipei Marathon'') [] []]),
        (ascii ''.race_date'', [Tag [50, 48, 50, 52, 0x5E74, 49, 50, 0x6708, 49, 53, 0x65E5] [] []]),
        (ascii ''.race_city'', [Tag (ascii ''Taipei'') [] []]),
        (ascii ''a'', [Tag [] [(ascii ''href'', ascii ''/race/1'')] []])]"

definition nameless_item :: tag where
  "nameless_item =
     Tag [] []
       [(ascii ''.race_date'', [Tag (ascii ''2024/11/3'') [] []]),
        (ascii ''.race_city'', [Tag (ascii ''Tainan'') [] []]),
        (ascii ''.race_status'', [Tag [0x5831, 0x540D, 0x4E2D] [] []]),
        (ascii ''a'', [Tag [] [(ascii ''href'', ascii ''/race/2'')] []])]"

definition sample_page :: tag where
  "sample_page = Tag [] [] [(ascii ''.race_list li'', [nameless_item, sample_item])]"

definition sample_event :: event where
  "sample_event =
     \<lparr>name = ascii ''Taipei Marathon'', location = ascii ''Taipei'',
      race_date = ascii ''2024-12-15'', registration_deadline = [],
      registration_open = False, website = ascii ''https://www.irunner.com.tw/race/1'',
      source = ascii ''iRunner''\<rparr>"

definition ok_response :: "pystr \<Rightarrow> py_exn + tag \<Rightarrow> response" where
  "ok_response u page = \<lparr>status_code = 200, reason = ascii ''OK'', response_url = u, soup = page\<rparr>"

definition net_second_down :: network where
  "net_second_down u =
     (if u = ascii ''https://www.irunner.com.tw/'' then Inr (ok_response u (Inr sample_page))
      else if u = ascii ''https://www.running.biji.co/index.php?q=competition''
      then Inl (RequestException (ascii ''timed out''))
      else Inr (ok_response u (Inr (Tag [] [] []))))"

definition net_parser_fails :: network where
  "net_parser_fails u =
     (if u = ascii ''https://www.irunner.com.tw/'' then Inl (RequestException (ascii ''timed out''))
      else Inr (ok_response u (Inl (OtherError (ascii ''ParserRejectedMarkup'')))))"

text \<open>
  A disk with no file that accepts every write, and one that refuses every write. An event
  whose name is the single surrogate U+D800 (the JSON text \<open>"\ud800"\<close> loads as this
  name), a disk whose file \<open>data/events.json\<close> holds this event, and the network on which
  every site times out.
\<close>

definition empty_disk :: filesystem where
  "empty_disk = \<lparr>contents = Map.empty, refused = (\<lambda>p. False)\<rparr>"





section \<open>Properties\<close>

subsection \<open>Removing duplicates\<close>

lemma dedupe_loop_spec:
  "dedupe_loop es seen out =
     out @ map (\<lambda>i. es ! i)
       (filter (\<lambda>i. event_key (es ! i) \<notin> seen \<union> event_key ` set (take i es)) [0..<length es])"
proof (induction es arbitrary: seen out)
  case Nil
  then show ?case by simp
next
  case (Cons e es)
  have shift: "[0..<length (e # es)] = 0 # map Suc [0..<length es]"
    by (simp add: upt_conv_Cons map_Suc_upt del: upt_Suc)
  show ?case
    unfolding shift
    by (auto simp add: Cons.IH Let_def filter_map comp_def simp del: upt_Suc
        intro!: arg_cong [where f = "map ((!) es)"] filter_cong)
qed

lemma dedupe_loop_distinct:
  "distinct (map event_key out) \<Longrightarrow> event_key ` set out \<subseteq> seen \<Longrightarrow>
   distinct (map event_key (dedupe_loop es seen out))"
proof (induction es arbitrary: seen out)
  case Nil
  then show ?case by simp
next
  case (Cons e es)
  show ?case
  proof (cases "event_key e \<in> seen")
    case True
    with Cons show ?thesis by simp
  next
    case False
    have "distinct (map event_key (out @ [e]))"
      using Cons.prems False by auto
    moreover have "event_key ` set (out @ [e]) \<subseteq> insert (event_key e) seen"
      using Cons.prems by auto
    ultimately have
      "distinct (map event_key (dedupe_loop es (insert (event_key e) seen) (out @ [e])))"
      by (rule Cons.IH)
    with False show ?thesis by simp
  qed
qed

lemma dedupe_loop_subseq: "subseq (dedupe_loop es seen out) (out @ es)"
proof (induction es arbitrary: seen out)
  case Nil
  then show ?case by simp
next
  case (Cons e es)
  show ?case
  proof (cases "event_key e \<in> seen")
    case True
    have "subseq (dedupe_loop es seen out) (out @ es)" by (rule Cons.IH)
    moreover have "subseq (out @ es) (out @ e # es)"
      by (auto simp add: subseq_append')
    ultimately have "subseq (dedupe_loop es seen out) (out @ e # es)"
      by (rule subseq_order.trans)
    with True show ?thesis by simp
  next
    case False
    have "subseq (dedupe_loop es (insert (event_key e) seen) (out @ [e])) ((out @ [e]) @ es)"
      by (rule Cons.IH)
    with False show ?thesis by simp
  qed
qed

lemma dedupe_loop_keys:
  "event_key ` set (dedupe_loop es seen out) = event_key ` set out \<union> (event_key ` set es - seen)"
  by (induction es arbitrary: seen out) (auto simp: Let_def)

text \<open>
  C1. For every list of events, no two events of \<open>dedupe_events events\<close> have the same key
  (name, race date, location); the result is a subsequence of the input with the same
  keys; and it consists exactly of the events at the positions where a key occurs for the
  first time, in the order of the input.
\<close>

theorem dedupe_events_first_occurrences:
  "distinct (map event_key (dedupe_events events))
   \<and> subseq (dedupe_events events) events
   \<and> event_key ` set (dedupe_events events) = event_key ` set events
   \<and> dedupe_events events =
       map (\<lambda>i. events ! i)
         (filter (\<lambda>i. event_key (events ! i) \<notin> event_key ` set (take i events))
            [0..<length events])"
proof -
  have "distinct (map event_key (dedupe_events events))"
    unfolding dedupe_events_def by (rule dedupe_loop_distinct) simp_all
  moreover have "subseq (dedupe_events events) events"
    using dedupe_loop_subseq [of events "{}" "[]"] by (simp add: dedupe_events_def)
  moreover have "event_key ` set (dedupe_events events) = event_key ` set events"
    by (simp add: dedupe_events_def dedupe_loop_keys)
  moreover have "dedupe_events events =
       map (\<lambda>i. events ! i)
         (filter (\<lambda>i. event_key (events ! i) \<notin> event_key ` set (take i events))
            [0..<length events])"
    by (simp add: dedupe_events_def dedupe_loop_spec)
  ultimately show ?thesis by blast
qed

subsection \<open>Registration status\<close>

lemma contains_sublist: "contains needle hay \<longleftrightarrow> sublist needle hay"
  by (induction hay) (simp_all add: sublist_Cons_right)




lemma guess_open_status_iff:
  "guess_open_status t \<longleftrightarrow> (\<exists>k\<in>set KEYWORDS. sublist k (strip t))"
  by (simp add: guess_open_status_def list_ex_iff contains_sublist)

lemmas status_eval =
  guess_open_status_def KEYWORDS_def strip_def lstrip_def rstrip_def isspace_def

text \<open>
  C7. \<open>guess_open_status\<close> is true for the text U+5831 U+540D U+4E2D, false for the text
  U+5DF2 U+622A U+6B62 and false for the empty text; for every text it is true exactly
  when the stripped text contains one of the keywords.
\<close>

theorem guess_open_status_examples:
  "guess_open_status [0x5831, 0x540D, 0x4E2D] = True
   \<and> guess_open_status [0x5DF2, 0x622A, 0x6B62] = False
   \<and> guess_open_status [] = False
   \<and> (\<forall>t. guess_open_status t \<longleftrightarrow> (\<exists>k\<in>set KEYWORDS. sublist k (strip t)))"
proof (intro conjI allI)
  show "guess_open_status [0x5831, 0x540D, 0x4E2D] = True" by (simp add: status_eval)
  show "guess_open_status [0x5DF2, 0x622A, 0x6B62] = False" by (simp add: status_eval)
  show "guess_open_status [] = False" by (simp add: status_eval)
  show "guess_open_status t \<longleftrightarrow> (\<exists>k\<in>set KEYWORDS. sublist k (strip t))" for t
    by (rule guess_open_status_iff)
qed

theorem guess_open_status_examples_witness:
  "(\<exists>k\<in>set KEYWORDS. sublist k (strip [32, 0x53EF, 0x5831, 0x540D, 32]))
   \<and> guess_open_status [32, 0x53EF, 0x5831, 0x540D, 32] = True"
proof -
  have k: "[0x53EF, 0x5831, 0x540D] \<in> set KEYWORDS" by (simp add: KEYWORDS_def)
  have s: "sublist [0x53EF, 0x5831, 0x540D] (strip [32, 0x53EF, 0x5831, 0x540D, 32])"
    by (simp add: strip_def lstrip_def rstrip_def isspace_def)
  from k s have e: "\<exists>k\<in>set KEYWORDS. sublist k (strip [32, 0x53EF, 0x5831, 0x540D, 32])"
    by (rule bexI [rotated])
  have "guess_open_status [32, 0x53EF, 0x5831, 0x540D, 32]
        = (\<exists>k\<in>set KEYWORDS. sublist k (strip [32, 0x53EF, 0x5831, 0x540D, 32]))"
    using guess_open_status_examples [THEN conjunct2, THEN conjunct2, THEN conjunct2, rule_format] .
  with e show ?thesis by simp
qed



subsection \<open>Dates\<close>

lemma decimal_ascii: "48 \<le> c \<Longrightarrow> c \<le> 57 \<Longrightarrow> decimal c = Some (c - 48)"
  by (simp add: decimal_def decimal_zeros_def)

lemma decimal_below: "c < 48 \<Longrightarrow> decimal c = None"
  by (simp add: decimal_def decimal_zeros_def)

lemma decimal_cjk: "0x4E00 \<le> c \<Longrightarrow> c \<le> 0x9FFF \<Longrightarrow> decimal c = None"
  by (simp add: decimal_def decimal_zeros_def)

lemmas date_eval =
  normalize_date_def clean_date_def DATE_PATTERNS_def strptime_def format_regex_def
  date_regex_def re_Y_def re_m_def re_d_def re_sep_def re_digit12_def re_digit_def
  re_seq_def re_alt_def re_char_def re_range_def re_class_def strip_def lstrip_def
  rstrip_def replace_char_def isspace_def isdecimal_def decimal_ascii decimal_below
  decimal_cjk py_int_def int_literal_def digits_value_def and_then_def valid_date_def
  days_in_month_def is_leap_def strftime_def format_0d_def zero_pad_def ascii_def
  digits10.simps

lemma isspace_not_decimal: "isspace c \<Longrightarrow> decimal c = None"
  unfolding isspace_def
  by (elim disjE) (simp_all add: decimal_def decimal_zeros_def)

lemma decimal_not_sign: "decimal 45 = None" "decimal 43 = None" "decimal 95 = None"
  by (simp_all add: decimal_def decimal_zeros_def)

lemma isdecimal_not_space: "isdecimal c \<Longrightarrow> \<not> isspace c"
  using isspace_not_decimal by (auto simp: isdecimal_def)

lemma isdecimal_not_sign: "isdecimal c \<Longrightarrow> c \<noteq> 45 \<and> c \<noteq> 43 \<and> c \<noteq> 95"
  using decimal_not_sign by (auto simp: isdecimal_def)

lemma digits_tail_all: "list_all isdecimal ds \<Longrightarrow> digits_tail ds"
  by (induction ds) auto

lemma strip_digits:
  assumes "ds \<noteq> []" and "list_all isdecimal ds"
  shows "strip ds = ds"
proof -
  from assms have h: "\<not> isspace (hd ds)" and l: "\<not> isspace (last ds)"
    by (auto simp: list_all_iff isdecimal_not_space)
  from h have 1: "dropWhile isspace ds = ds"
    by (simp add: dropWhile_eq_self_iff)
  from l assms(1) have "dropWhile isspace (rev ds) = rev ds"
    by (simp add: dropWhile_eq_self_iff hd_rev)
  with 1 show ?thesis
    by (simp add: strip_def lstrip_def rstrip_def)
qed

lemma py_int_digits:
  assumes "ds \<noteq> []" and "list_all isdecimal ds" and "length ds \<le> 4300"
  shows "py_int ds = Inr (int (digits_value ds))"
proof -
  from assms(1) obtain c cs where ds: "ds = c # cs" by (cases ds) auto
  with assms(2) have c: "isdecimal c" and cs: "list_all isdecimal cs" by auto
  from c have ns: "c \<noteq> 45" "c \<noteq> 43" using isdecimal_not_sign by auto
  have f: "filter (\<lambda>c. c \<noteq> 95) ds = ds"
    using assms(2) isdecimal_not_sign by (auto simp: filter_id_conv list_all_iff)
  have lit: "int_literal ds"
    using c cs by (simp add: int_literal_def ds digits_tail_all)
  have st: "strip ds = ds" using assms(1,2) by (rule strip_digits)
  show ?thesis
    unfolding py_int_def st Let_def
    using ns lit f assms(3) by (simp add: ds)
qed

lemma re_digit12_digits:
  "(g, r) \<in> set (re_digit12 s) \<Longrightarrow> g \<noteq> [] \<and> list_all isdecimal g \<and> length g \<le> 2"
  by (auto simp: re_digit12_def re_alt_def re_seq_def re_digit_def re_class_def
      split: list.splits if_splits)

lemma date_regex_digits:
  "((y, m, d), r) \<in> set (date_regex s) \<Longrightarrow>
     (m \<noteq> [] \<and> list_all isdecimal m \<and> length m \<le> 2)
     \<and> (d \<noteq> [] \<and> list_all isdecimal d \<and> length d \<le> 2)"
  unfolding date_regex_def
  by (auto dest!: re_digit12_digits)

lemma re_search_digits:
  "re_search s = Some (y, m, d) \<Longrightarrow>
     (m \<noteq> [] \<and> list_all isdecimal m \<and> length m \<le> 2)
     \<and> (d \<noteq> [] \<and> list_all isdecimal d \<and> length d \<le> 2)"
proof (induction s)
  case Nil
  then obtain r rest where "date_regex [] = ((y, m, d), r) # rest"
    by (auto split: list.splits)
  then have "((y, m, d), r) \<in> set (date_regex [])" by simp
  then show ?case by (rule date_regex_digits)
next
  case (Cons c cs)
  show ?case
  proof (cases "date_regex (c # cs)")
    case Nil
    with Cons show ?thesis by simp
  next
    case (Cons a rest)
    with Cons.prems obtain r where "a = ((y, m, d), r)"
      by (cases a) auto
    with Cons have "((y, m, d), r) \<in> set (date_regex (c # cs))" by simp
    then show ?thesis by (rule date_regex_digits)
  qed
qed

lemma py_int_error: "py_int s = Inl e \<Longrightarrow> e = ValueError"
  by (auto simp: py_int_def Let_def split: if_splits)

lemma strptime_error: "strptime v p = Inl e \<Longrightarrow> e = ValueError"
  by (auto simp: strptime_def and_then_def split: list.splits if_splits sum.splits prod.splits
      dest: py_int_error)

lemma try_patterns_total: "\<exists>s. try_patterns ps v = Inr s"
proof (induction ps)
  case Nil
  show ?case
  proof (cases "re_search v")
    case None
    then show ?thesis by simp
  next
    case (Some g)
    obtain y m d where g: "g = (y, m, d)" by (cases g) auto
    from Some g have "(m \<noteq> [] \<and> list_all isdecimal m \<and> length m \<le> 2)
        \<and> (d \<noteq> [] \<and> list_all isdecimal d \<and> length d \<le> 2)"
      using re_search_digits by simp
    then have "py_int m = Inr (int (digits_value m))" "py_int d = Inr (int (digits_value d))"
      by (simp_all add: py_int_digits)
    with Some g show ?thesis by (simp add: and_then_def)
  qed
next
  case (Cons p ps)
  show ?case
  proof (cases "strptime v p")
    case (Inl e)
    then have "e = ValueError" by (rule strptime_error)
    with Inl Cons show ?thesis by simp
  next
    case (Inr dt)
    then show ?thesis by simp
  qed
qed

lemma try_patterns_unparsed:
  assumes "\<forall>p\<in>set ps. \<forall>dt. strptime v p \<noteq> Inr dt" and "re_search v = None"
  shows "try_patterns ps v = Inr v"
  using assms
proof (induction ps)
  case Nil
  then show ?case by simp
next
  case (Cons p ps)
  from Cons.prems(1) obtain e where e: "strptime v p = Inl e"
    by (cases "strptime v p") auto
  then have "e = ValueError" by (rule strptime_error)
  with e Cons show ?case by simp
qed

lemma try_patterns_regex:
  assumes "\<forall>p\<in>set ps. \<forall>dt. strptime v p \<noteq> Inr dt" and "re_search v = Some (y, m, d)"
  shows "try_patterns ps v =
           Inr (y @ [45] @ format_0d 2 (int (digits_value m)) @ [45]
                  @ format_0d 2 (int (digits_value d)))"
  using assms
proof (induction ps)
  case Nil
  have "(m \<noteq> [] \<and> list_all isdecimal m \<and> length m \<le> 2)
        \<and> (d \<noteq> [] \<and> list_all isdecimal d \<and> length d \<le> 2)"
    using Nil.prems(2) by (rule re_search_digits)
  then have "py_int m = Inr (int (digits_value m))" "py_int d = Inr (int (digits_value d))"
    by (simp_all add: py_int_digits)
  with Nil.prems(2) show ?case by (simp add: and_then_def)
next
  case (Cons p ps)
  from Cons.prems(1) obtain e where e: "strptime v p = Inl e"
    by (cases "strptime v p") auto
  then have "e = ValueError" by (rule strptime_error)
  with e Cons show ?case by simp
qed

text \<open>
  C5. \<open>normalize_date\<close> gives 2024-05-10 for 2024 U+5E74 5 U+6708 10 U+65E5 and for
  2024/5/10, and gives the text U+4E0D U+660E back unchanged. For every text it returns a
  text and raises nothing; and when no format of \<open>DATE_PATTERNS\<close> parses the cleaned text
  and the regular expression finds nothing in it, the result is the cleaned text.
\<close>

theorem normalize_date_total:
  "normalize_date [50, 48, 50, 52, 0x5E74, 53, 0x6708, 49, 48, 0x65E5] = Inr (ascii ''2024-05-10'')
   \<and> normalize_date (ascii ''2024/5/10'') = Inr (ascii ''2024-05-10'')
   \<and> normalize_date [0x4E0D, 0x660E] = Inr [0x4E0D, 0x660E]
   \<and> (\<forall>v. \<exists>s. normalize_date v = Inr s)
   \<and> (\<forall>v. (\<forall>p\<in>set DATE_PATTERNS. \<forall>dt. strptime (clean_date v) p \<noteq> Inr dt)
            \<and> re_search (clean_date v) = None
          \<longrightarrow> normalize_date v = Inr (clean_date v))"
proof (intro conjI allI impI)
  show "normalize_date [50, 48, 50, 52, 0x5E74, 53, 0x6708, 49, 48, 0x65E5]
        = Inr (ascii ''2024-05-10'')"
    by (simp add: date_eval)
  show "normalize_date (ascii ''2024/5/10'') = Inr (ascii ''2024-05-10'')"
    by (simp add: date_eval)
  show "normalize_date [0x4E0D, 0x660E] = Inr [0x4E0D, 0x660E]"
    by (simp add: date_eval)
  show "\<exists>s. normalize_date v = Inr s" for v
    unfolding normalize_date_def by (rule try_patterns_total)
  show "normalize_date v = Inr (clean_date v)"
    if "(\<forall>p\<in>set DATE_PATTERNS. \<forall>dt. strptime (clean_date v) p \<noteq> Inr dt)
        \<and> re_search (clean_date v) = None" for v
    unfolding normalize_date_def using that by (simp add: try_patterns_unparsed)
qed

theorem normalize_date_total_witness:
  "strptime (clean_date [32, 0x4E0D, 32, 32, 0x660E, 32]) 45 = Inl ValueError
   \<and> strptime (clean_date [32, 0x4E0D, 32, 32, 0x660E, 32]) 47 = Inl ValueError
   \<and> strptime (clean_date [32, 0x4E0D, 32, 32, 0x660E, 32]) 46 = Inl ValueError
   \<and> re_search (clean_date [32, 0x4E0D, 32, 32, 0x660E, 32]) = None
   \<and> normalize_date [32, 0x4E0D, 32, 32, 0x660E, 32] = Inr [0x4E0D, 32, 0x660E]"
proof -
  have c: "clean_date [32, 0x4E0D, 32, 32, 0x660E, 32] = [0x4E0D, 32, 0x660E]"
    by (simp add: date_eval)
  have p1: "strptime [0x4E0D, 32, 0x660E] 45 = Inl ValueError"
    and p2: "strptime [0x4E0D, 32, 0x660E] 47 = Inl ValueError"
    and p3: "strptime [0x4E0D, 32, 0x660E] 46 = Inl ValueError"
    by (simp_all add: date_eval)
  have p: "\<forall>p\<in>set DATE_PATTERNS. \<forall>dt. strptime [0x4E0D, 32, 0x660E] p \<noteq> Inr dt"
    by (simp add: DATE_PATTERNS_def p1 p2 p3)
  have r: "re_search [0x4E0D, 32, 0x660E] = None"
    by (simp add: date_eval)
  have "normalize_date [32, 0x4E0D, 32, 32, 0x660E, 32]
        = Inr (clean_date [32, 0x4E0D, 32, 32, 0x660E, 32])"
    using normalize_date_total [THEN conjunct2, THEN conjunct2, THEN conjunct2, THEN conjunct2,
        rule_format, of "[32, 0x4E0D, 32, 32, 0x660E, 32]"] p r
    by (simp only: c simp_thms)
  with p1 p2 p3 r show ?thesis by (simp only: c simp_thms)
qed

text \<open>
  C10. When no format of \<open>DATE_PATTERNS\<close> parses the cleaned text and the regular
  expression finds the groups year, month and day in it, \<open>normalize_date\<close> returns the
  year, the month in two digits and the day in two digits with no test that they form a
  date. So 2024.13.45, which each of the three formats rejects, gives 2024-13-45, and
  month 13 with day 45 is no date.
\<close>

theorem normalize_date_unvalidated:
  "(\<forall>v y m d. (\<forall>p\<in>set DATE_PATTERNS. \<forall>dt. strptime (clean_date v) p \<noteq> Inr dt)
               \<and> re_search (clean_date v) = Some (y, m, d)
             \<longrightarrow> normalize_date v =
                   Inr (y @ [45] @ format_0d 2 (int (digits_value m)) @ [45]
                          @ format_0d 2 (int (digits_value d))))
   \<and> normalize_date (ascii ''2024.13.45'') = Inr (ascii ''2024-13-45'')
   \<and> strptime (clean_date (ascii ''2024.13.45'')) 45 = Inl ValueError
   \<and> strptime (clean_date (ascii ''2024.13.45'')) 47 = Inl ValueError
   \<and> strptime (clean_date (ascii ''2024.13.45'')) 46 = Inl ValueError
   \<and> \<not> valid_date 2024 13 45"
proof (intro conjI allI impI)
  show "normalize_date v =
          Inr (y @ [45] @ format_0d 2 (int (digits_value m)) @ [45]
                 @ format_0d 2 (int (digits_value d)))"
    if "(\<forall>p\<in>set DATE_PATTERNS. \<forall>dt. strptime (clean_date v) p \<noteq> Inr dt)
        \<and> re_search (clean_date v) = Some (y, m, d)" for v y m d
    unfolding normalize_date_def using that by (simp add: try_patterns_regex)
  show "normalize_date (ascii ''2024.13.45'') = Inr (ascii ''2024-13-45'')"
    by (simp add: date_eval)
  show "strptime (clean_date (ascii ''2024.13.45'')) 45 = Inl ValueError"
    by (simp add: date_eval)
  show "strptime (clean_date (ascii ''2024.13.45'')) 47 = Inl ValueError"
    by (simp add: date_eval)
  show "strptime (clean_date (ascii ''2024.13.45'')) 46 = Inl ValueError"
    by (simp add: date_eval)
  show "\<not> valid_date 2024 13 45"
    by (simp add: valid_date_def)
qed

theorem normalize_date_unvalidated_witness:
  "strptime (clean_date (ascii ''2024/2/30'')) 45 = Inl ValueError
   \<and> strptime (clean_date (ascii ''2024/2/30'')) 47 = Inl ValueError
   \<and> strptime (clean_date (ascii ''2024/2/30'')) 46 = Inl ValueError
   \<and> re_search (clean_date (ascii ''2024/2/30'')) = Some (ascii ''2024'', ascii ''2'', ascii ''30'')
   \<and> normalize_date (ascii ''2024/2/30'') = Inr (ascii ''2024-02-30'')"
proof -
  have c: "clean_date (ascii ''2024/2/30'') = ascii ''2024/2/30''"
    by (simp add: date_eval)
  have p1: "strptime (ascii ''2024/2/30'') 45 = Inl ValueError"
    and p2: "strptime (ascii ''2024/2/30'') 47 = Inl ValueError"
    and p3: "strptime (ascii ''2024/2/30'') 46 = Inl ValueError"
    by (simp_all add: date_eval)
  have p: "\<forall>p\<in>set DATE_PATTERNS. \<forall>dt. strptime (ascii ''2024/2/30'') p \<noteq> Inr dt"
    by (simp add: DATE_PATTERNS_def p1 p2 p3)
  have r: "re_search (ascii ''2024/2/30'') = Some (ascii ''2024'', ascii ''2'', ascii ''30'')"
    by (simp add: date_eval)
  have f: "ascii ''2024'' @ [45] @ format_0d 2 (int (digits_value (ascii ''2''))) @ [45]
             @ format_0d 2 (int (digits_value (ascii ''30''))) = ascii ''2024-02-30''"
    by (simp add: date_eval)
  have "normalize_date (ascii ''2024/2/30'')
        = Inr (ascii ''2024'' @ [45] @ format_0d 2 (int (digits_value (ascii ''2''))) @ [45]
                 @ format_0d 2 (int (digits_value (ascii ''30''))))"
    using normalize_date_unvalidated [THEN conjunct1, rule_format,
        of "ascii ''2024/2/30''" "ascii ''2024''" "ascii ''2''" "ascii ''30''"] p r
    by (simp only: c simp_thms)
  with p1 p2 p3 r show ?thesis by (simp only: c f simp_thms)
qed

subsection \<open>Writing and loading\<close>







lemma utf8_encodable_Nil: "utf8_encodable []"
  by (simp add: utf8_encodable_def)

lemma ascii_encodable: "utf8_encodable (ascii s)"
proof -
  have "\<not> is_surrogate (of_char c)" for c
  proof -
    have "of_char c < (256::nat)" by simp
    then have "of_char c < (0xD800::nat)" by (rule less_trans) simp
    then show ?thesis by (simp add: is_surrogate_def)
  qed
  then show ?thesis
    by (simp add: utf8_encodable_def ascii_def list_all_iff)
qed

lemma encodable_event_json:
  "encodable (event_json e) =
     (utf8_encodable (name e) \<and> utf8_encodable (location e) \<and> utf8_encodable (race_date e)
      \<and> utf8_encodable (registration_deadline e) \<and> utf8_encodable (website e)
      \<and> utf8_encodable (source e))"
  by (simp add: event_json_def ascii_encodable)

lemma encodable_payload:
  "encodable (payload now es) =
     (utf8_encodable now
      \<and> list_all (\<lambda>e. utf8_encodable (name e) \<and> utf8_encodable (location e)
                     \<and> utf8_encodable (race_date e) \<and> utf8_encodable (registration_deadline e)
                     \<and> utf8_encodable (website e) \<and> utf8_encodable (source e)) es)"
  by (simp add: payload_def ascii_encodable list_all_iff encodable_event_json)

lemma write_events_written:
  "\<not> refused fs path \<Longrightarrow> encodable (payload now es) \<Longrightarrow>
   write_events fs now path es =
     (fs\<lparr>contents := (contents fs)(path \<mapsto> Json_text (payload now es))\<rparr>, None)"
  by (simp add: write_events_def Let_def)





lemma sample_event_encodable: "encodable (payload (ascii t) [sample_event])"
  by (simp add: encodable_payload sample_event_def ascii_encodable utf8_encodable_Nil)





subsection \<open>Extraction\<close>

lemmas extract_eval =
  extract_generic_def raise_for_status_def getitem_def select_def select_one_def tag_get_def
  extract_item_def rstrip_chars_def guess_open_status_def KEYWORDS_def

lemma nameless_item_skipped:
  "extract_item (ascii ''https://www.irunner.com.tw/'') (ascii ''iRunner'')
     [(ascii ''item'', ascii ''.race_list li''),
      (ascii ''name'', ascii ''.race_name''),
      (ascii ''race_date'', ascii ''.race_date''),
      (ascii ''location'', ascii ''.race_city''),
      (ascii ''deadline'', ascii ''.race_signup''),
      (ascii ''status'', ascii ''.race_status''),
      (ascii ''link'', ascii ''a'')] nameless_item = Inr None"
  by (simp add: nameless_item_def extract_eval date_eval)

lemma sample_item_event:
  "extract_item (ascii ''https://www.irunner.com.tw/'') (ascii ''iRunner'')
     [(ascii ''item'', ascii ''.race_list li''),
      (ascii ''name'', ascii ''.race_name''),
      (ascii ''race_date'', ascii ''.race_date''),
      (ascii ''location'', ascii ''.race_city''),
      (ascii ''deadline'', ascii ''.race_signup''),
      (ascii ''status'', ascii ''.race_status''),
      (ascii ''link'', ascii ''a'')] sample_item = Inr (Some sample_event)"
  by (simp add: sample_item_def sample_event_def extract_eval date_eval)

lemma select_sample_page:
  "select sample_page (ascii ''.race_list li'') = [nameless_item, sample_item]"
  by (simp add: sample_page_def select_def)

lemma normalize_date_returns: "\<exists>s. normalize_date v = Inr s"
  unfolding normalize_date_def by (rule try_patterns_total)

lemma extract_item_incomplete:
  assumes "getitem selectors (ascii ''name'') = Inr s1"
    and "getitem selectors (ascii ''race_date'') = Inr s2"
    and "getitem selectors (ascii ''location'') = Inr s3"
    and "getitem selectors (ascii ''deadline'') = Inr s4"
    and "getitem selectors (ascii ''status'') = Inr s5"
    and "getitem selectors (ascii ''link'') = Inr s6"
    and "select_one item s1 = None \<or> select_one item s2 = None
         \<or> select_one item s3 = None \<or> select_one item s6 = None"
  shows "extract_item url src selectors item = Inr None"
  using assms(7)
  by (auto simp add: extract_item_def and_then_def Let_def assms(1-6) split: option.splits)

lemma extract_item_complete:
  assumes "getitem selectors (ascii ''name'') = Inr s1"
    and "getitem selectors (ascii ''race_date'') = Inr s2"
    and "getitem selectors (ascii ''location'') = Inr s3"
    and "getitem selectors (ascii ''deadline'') = Inr s4"
    and "getitem selectors (ascii ''status'') = Inr s5"
    and "getitem selectors (ascii ''link'') = Inr s6"
    and "select_one item s1 = Some n" and "select_one item s2 = Some d"
    and "select_one item s3 = Some l" and "select_one item s6 = Some a"
  shows "\<exists>rd dl.
     normalize_date (get_text_strip d) = Inr rd
     \<and> (case select_one item s4 of None \<Rightarrow> Inr [] | Some t \<Rightarrow> normalize_date (get_text_strip t))
         = Inr dl
     \<and> extract_item url src selectors item =
         Inr (Some \<lparr>name = get_text_strip n, location = get_text_strip l, race_date = rd,
                    registration_deadline = dl,
                    registration_open =
                      guess_open_status
                        (case select_one item s5 of None \<Rightarrow> [] | Some s \<Rightarrow> get_text_strip s),
                    website =
                      (if tag_get a (ascii ''href'') [] \<noteq> [] \<and> prefix [47] (tag_get a (ascii ''href'') [])
                       then rstrip_chars [47] url @ tag_get a (ascii ''href'') []
                       else tag_get a (ascii ''href'') []),
                    source = src\<rparr>)"
proof -
  obtain rd where rd: "normalize_date (get_text_strip d) = Inr rd"
    using normalize_date_returns by blast
  obtain dl where dl:
    "(case select_one item s4 of None \<Rightarrow> Inr [] | Some t \<Rightarrow> normalize_date (get_text_strip t))
       = Inr dl"
    using normalize_date_returns by (cases "select_one item s4") auto
  have "extract_item url src selectors item =
         Inr (Some \<lparr>name = get_text_strip n, location = get_text_strip l, race_date = rd,
                    registration_deadline = dl,
                    registration_open =
                      guess_open_status
                        (case select_one item s5 of None \<Rightarrow> [] | Some s \<Rightarrow> get_text_strip s),
                    website =
                      (if tag_get a (ascii ''href'') [] \<noteq> [] \<and> prefix [47] (tag_get a (ascii ''href'') [])
                       then rstrip_chars [47] url @ tag_get a (ascii ''href'') []
                       else tag_get a (ascii ''href'') []),
                    source = src\<rparr>)"
    by (simp add: extract_item_def and_then_def Let_def assms rd dl)
  with rd dl show ?thesis by blast
qed

lemma extract_item_returns:
  assumes "getitem selectors (ascii ''name'') = Inr s1"
    and "getitem selectors (ascii ''race_date'') = Inr s2"
    and "getitem selectors (ascii ''location'') = Inr s3"
    and "getitem selectors (ascii ''deadline'') = Inr s4"
    and "getitem selectors (ascii ''status'') = Inr s5"
    and "getitem selectors (ascii ''link'') = Inr s6"
  shows "\<exists>r. extract_item url src selectors item = Inr r"
proof (cases "select_one item s1 = None \<or> select_one item s2 = None
         \<or> select_one item s3 = None \<or> select_one item s6 = None")
  case True
  with assms have "extract_item url src selectors item = Inr None"
    by (rule extract_item_incomplete)
  then show ?thesis by blast
next
  case False
  then obtain n d l a where "select_one item s1 = Some n" "select_one item s2 = Some d"
    "select_one item s3 = Some l" "select_one item s6 = Some a"
    by auto
  with assms show ?thesis
    using extract_item_complete [of selectors s1 s2 s3 s4 s5 s6 item n d l a url src] by blast
qed

lemma extract_loop_items:
  assumes "\<forall>item\<in>set items. \<exists>r. extract_item url src selectors item = Inr r"
  shows "extract_loop url src selectors items events =
     Inr (events @ concat (map (\<lambda>item. case extract_item url src selectors item of
                                          Inr (Some ev) \<Rightarrow> [ev] | _ \<Rightarrow> []) items))"
  using assms
proof (induction items arbitrary: events)
  case Nil
  then show ?case by simp
next
  case (Cons item items)
  then obtain r where r: "extract_item url src selectors item = Inr r" by auto
  from Cons.prems have rest: "\<forall>item\<in>set items. \<exists>r. extract_item url src selectors item = Inr r"
    by simp
  show ?case
    by (cases r) (simp_all add: r Cons.IH [OF rest])
qed

lemma rstrip_chars_slash:
  "(\<exists>k. url = rstrip_chars [47] url @ replicate k 47) \<and> \<not> suffix [47] (rstrip_chars [47] url)"
proof
  let ?P = "\<lambda>c. c \<in> set [47::nat]"
  have "rev url = takeWhile ?P (rev url) @ dropWhile ?P (rev url)" by simp
  then have "url = rev (dropWhile ?P (rev url)) @ rev (takeWhile ?P (rev url))"
    by (metis rev_append rev_rev_ident)
  moreover have "\<forall>x\<in>set (rev (takeWhile ?P (rev url))). x = 47"
    by (auto dest: set_takeWhileD)
  then have "rev (takeWhile ?P (rev url)) = replicate (length (rev (takeWhile ?P (rev url)))) 47"
    by (metis replicate_eqI)
  ultimately have "url = rstrip_chars [47] url
      @ replicate (length (rev (takeWhile ?P (rev url)))) 47"
    by (simp add: rstrip_chars_def)
  then show "\<exists>k. url = rstrip_chars [47] url @ replicate k 47" by (rule exI)
next
  show "\<not> suffix [47] (rstrip_chars [47] url)"
  proof
    assume "suffix [47] (rstrip_chars [47] url)"
    then obtain zs where "rstrip_chars [47] url = zs @ [47]"
      by (auto simp: suffix_def)
    then have "rev (rstrip_chars [47] url) = 47 # rev zs" by simp
    then have "dropWhile (\<lambda>c. c \<in> set [47::nat]) (rev url) = 47 # rev zs"
      by (simp add: rstrip_chars_def)
    then show False
      by (simp add: dropWhile_eq_Cons_conv)
  qed
qed

text \<open>
  C6. Let the selectors hold the six keys of the fields. For an item of the page, an event
  is built exactly when the selectors of name, race date, location and link each find an
  element; otherwise the item is skipped, with no exception and nothing printed (the loop
  has no output but the list). An event built from an item without a status element has
  \<open>registration_open = False\<close>, and one from an item without a deadline element has the
  empty \<open>registration_deadline\<close>. The loop returns the events of the complete items in the
  order of the items, whatever the other items lack, and so does \<open>extract_generic\<close> for a
  response that passes \<open>raise_for_status\<close> and parses.
\<close>

theorem extract_skips_incomplete_items:
  "getitem selectors (ascii ''name'') = Inr s1
   \<and> getitem selectors (ascii ''race_date'') = Inr s2
   \<and> getitem selectors (ascii ''location'') = Inr s3
   \<and> getitem selectors (ascii ''deadline'') = Inr s4
   \<and> getitem selectors (ascii ''status'') = Inr s5
   \<and> getitem selectors (ascii ''link'') = Inr s6
   \<longrightarrow>
     ((\<exists>ev. extract_item url src selectors item = Inr (Some ev))
        = (select_one item s1 \<noteq> None \<and> select_one item s2 \<noteq> None
           \<and> select_one item s3 \<noteq> None \<and> select_one item s6 \<noteq> None))
     \<and> ((extract_item url src selectors item = Inr None)
        = (select_one item s1 = None \<or> select_one item s2 = None
           \<or> select_one item s3 = None \<or> select_one item s6 = None))
     \<and> (\<forall>ev. extract_item url src selectors item = Inr (Some ev) \<and> select_one item s5 = None
           \<longrightarrow> registration_open ev = False)
     \<and> (\<forall>ev. extract_item url src selectors item = Inr (Some ev) \<and> select_one item s4 = None
           \<longrightarrow> registration_deadline ev = [])
     \<and> extract_loop url src selectors items events =
         Inr (events @ concat (map (\<lambda>item. case extract_item url src selectors item of
                                              Inr (Some ev) \<Rightarrow> [ev] | _ \<Rightarrow> []) items))
     \<and> (net url = Inr resp \<and> raise_for_status resp = Inr () \<and> soup resp = Inr page
          \<and> getitem selectors (ascii ''item'') = Inr s0
        \<longrightarrow> extract_generic net url src selectors =
              Inr (concat (map (\<lambda>item. case extract_item url src selectors item of
                                           Inr (Some ev) \<Rightarrow> [ev] | _ \<Rightarrow> []) (select page s0))))"
proof (intro impI)
  assume k: "getitem selectors (ascii ''name'') = Inr s1
   \<and> getitem selectors (ascii ''race_date'') = Inr s2
   \<and> getitem selectors (ascii ''location'') = Inr s3
   \<and> getitem selectors (ascii ''deadline'') = Inr s4
   \<and> getitem selectors (ascii ''status'') = Inr s5
   \<and> getitem selectors (ascii ''link'') = Inr s6"
  then have k1: "getitem selectors (ascii ''name'') = Inr s1"
    and k2: "getitem selectors (ascii ''race_date'') = Inr s2"
    and k3: "getitem selectors (ascii ''location'') = Inr s3"
    and k4: "getitem selectors (ascii ''deadline'') = Inr s4"
    and k5: "getitem selectors (ascii ''status'') = Inr s5"
    and k6: "getitem selectors (ascii ''link'') = Inr s6"
    by simp_all
  note ks = k1 k2 k3 k4 k5 k6
  let ?missing = "select_one item s1 = None \<or> select_one item s2 = None
           \<or> select_one item s3 = None \<or> select_one item s6 = None"
  have inc: "extract_item url src selectors item = Inr None" if ?missing
    using ks that by (rule extract_item_incomplete)
  have com: "\<exists>ev. extract_item url src selectors item = Inr (Some ev)
                \<and> (select_one item s5 = None \<longrightarrow> registration_open ev = False)
                \<and> (select_one item s4 = None \<longrightarrow> registration_deadline ev = [])"
    if "\<not> ?missing"
  proof -
    from that obtain n d l a where p: "select_one item s1 = Some n" "select_one item s2 = Some d"
      "select_one item s3 = Some l" "select_one item s6 = Some a"
      by auto
    from extract_item_complete [OF ks p, of url src] obtain rd dl where
      dl: "(case select_one item s4 of None \<Rightarrow> Inr [] | Some t \<Rightarrow> normalize_date (get_text_strip t))
             = Inr dl"
      and ev: "extract_item url src selectors item =
         Inr (Some \<lparr>name = get_text_strip n, location = get_text_strip l, race_date = rd,
                    registration_deadline = dl,
                    registration_open =
                      guess_open_status
                        (case select_one item s5 of None \<Rightarrow> [] | Some s \<Rightarrow> get_text_strip s),
                    website =
                      (if tag_get a (ascii ''href'') [] \<noteq> [] \<and> prefix [47] (tag_get a (ascii ''href'') [])
                       then rstrip_chars [47] url @ tag_get a (ascii ''href'') []
                       else tag_get a (ascii ''href'') []),
                    source = src\<rparr>)"
      by blast
    have "guess_open_status [] = False"
      by (simp add: status_eval)
    moreover have "select_one item s4 = None \<longrightarrow> dl = []"
      using dl by auto
    ultimately show ?thesis
      by (simp add: ev)
  qed
  have c1: "(\<exists>ev. extract_item url src selectors item = Inr (Some ev))
        = (select_one item s1 \<noteq> None \<and> select_one item s2 \<noteq> None
           \<and> select_one item s3 \<noteq> None \<and> select_one item s6 \<noteq> None)"
    using inc com by (cases ?missing) auto
  have c2: "(extract_item url src selectors item = Inr None) = ?missing"
    using inc com by (cases ?missing) auto
  have c3: "\<forall>ev. extract_item url src selectors item = Inr (Some ev) \<and> select_one item s5 = None
           \<longrightarrow> registration_open ev = False"
    using inc com by (cases ?missing) auto
  have c4: "\<forall>ev. extract_item url src selectors item = Inr (Some ev) \<and> select_one item s4 = None
           \<longrightarrow> registration_deadline ev = []"
    using inc com by (cases ?missing) auto
  have ret: "\<forall>item\<in>set xs. \<exists>r. extract_item url src selectors item = Inr r" for xs
    using extract_item_returns [OF ks] by blast
  have c5: "extract_loop url src selectors items events =
         Inr (events @ concat (map (\<lambda>item. case extract_item url src selectors item of
                                              Inr (Some ev) \<Rightarrow> [ev] | _ \<Rightarrow> []) items))"
    using ret by (rule extract_loop_items)
  have c6: "extract_generic net url src selectors =
              Inr (concat (map (\<lambda>item. case extract_item url src selectors item of
                                           Inr (Some ev) \<Rightarrow> [ev] | _ \<Rightarrow> []) (select page s0)))"
    if "net url = Inr resp \<and> raise_for_status resp = Inr () \<and> soup resp = Inr page
          \<and> getitem selectors (ascii ''item'') = Inr s0"
    using that extract_loop_items [OF ret, of "select page s0" "[]"]
    by (simp add: extract_generic_def and_then_def)
  from c1 c2 c3 c4 c5 c6 show "((\<exists>ev. extract_item url src selectors item = Inr (Some ev))
        = (select_one item s1 \<noteq> None \<and> select_one item s2 \<noteq> None
           \<and> select_one item s3 \<noteq> None \<and> select_one item s6 \<noteq> None))
     \<and> ((extract_item url src selectors item = Inr None)
        = (select_one item s1 = None \<or> select_one item s2 = None
           \<or> select_one item s3 = None \<or> select_one item s6 = None))
     \<and> (\<forall>ev. extract_item url src selectors item = Inr (Some ev) \<and> select_one item s5 = None
           \<longrightarrow> registration_open ev = False)
     \<and> (\<forall>ev. extract_item url src selectors item = Inr (Some ev) \<and> select_one item s4 = None
           \<longrightarrow> registration_deadline ev = [])
     \<and> extract_loop url src selectors items events =
         Inr (events @ concat (map (\<lambda>item. case extract_item url src selectors item of
                                              Inr (Some ev) \<Rightarrow> [ev] | _ \<Rightarrow> []) items))
     \<and> (net url = Inr resp \<and> raise_for_status resp = Inr () \<and> soup resp = Inr page
          \<and> getitem selectors (ascii ''item'') = Inr s0
        \<longrightarrow> extract_generic net url src selectors =
              Inr (concat (map (\<lambda>item. case extract_item url src selectors item of
                                           Inr (Some ev) \<Rightarrow> [ev] | _ \<Rightarrow> []) (select page s0))))"
    by (intro conjI impI)
qed

theorem extract_skips_incomplete_items_witness:
  "select_one nameless_item (ascii ''.race_name'') = None
   \<and> select_one sample_item (ascii ''.race_signup'') = None
   \<and> select_one sample_item (ascii ''.race_status'') = None
   \<and> extract_loop (ascii ''https://www.irunner.com.tw/'') (ascii ''iRunner'')
        [(ascii ''item'', ascii ''.race_list li''),
         (ascii ''name'', ascii ''.race_name''),
         (ascii ''race_date'', ascii ''.race_date''),
         (ascii ''location'', ascii ''.race_city''),
         (ascii ''deadline'', ascii ''.race_signup''),
         (ascii ''status'', ascii ''.race_status''),
         (ascii ''link'', ascii ''a'')]
        [nameless_item, sample_item] []
      = Inr [sample_event]
   \<and> registration_open sample_event = False
   \<and> registration_deadline sample_event = []"
  (is "?n \<and> ?d \<and> ?s \<and> extract_loop ?url ?src ?sels ?items [] = ?r \<and> ?o \<and> ?dl")
proof -
  have n: ?n by (simp add: nameless_item_def select_one_def select_def ascii_def)
  have d: ?d by (simp add: sample_item_def select_one_def select_def ascii_def)
  have s: ?s by (simp add: sample_item_def select_one_def select_def ascii_def)
  have k: "getitem ?sels (ascii ''name'') = Inr (ascii ''.race_name'')
   \<and> getitem ?sels (ascii ''race_date'') = Inr (ascii ''.race_date'')
   \<and> getitem ?sels (ascii ''location'') = Inr (ascii ''.race_city'')
   \<and> getitem ?sels (ascii ''deadline'') = Inr (ascii ''.race_signup'')
   \<and> getitem ?sels (ascii ''status'') = Inr (ascii ''.race_status'')
   \<and> getitem ?sels (ascii ''link'') = Inr (ascii ''a'')"
    by (simp add: getitem_def ascii_def)
  have "extract_loop ?url ?src ?sels ?items [] =
         Inr ([] @ concat (map (\<lambda>item. case extract_item ?url ?src ?sels item of
                                           Inr (Some ev) \<Rightarrow> [ev] | _ \<Rightarrow> []) ?items))"
    using extract_skips_incomplete_items [THEN mp, OF k, THEN conjunct2, THEN conjunct2,
        THEN conjunct2, THEN conjunct2, THEN conjunct1] .
  also have "\<dots> = ?r"
    by (simp add: nameless_item_skipped sample_item_event)
  finally have l: "extract_loop ?url ?src ?sels ?items [] = ?r" .
  have o: ?o and dl: ?dl by (simp_all add: sample_event_def)
  from n d s l o dl show ?thesis by (intro conjI)
qed

text \<open>
  C8. Let the selectors hold the six keys and let the four required elements of an item
  be found. Then the item gives an event, and with \<open>href\<close> the value of the link element's
  \<open>href\<close> attribute, or the empty text when the attribute is absent: if \<open>href\<close> starts with
  a slash, the website of the event is the URL given to the extractor without its trailing
  slashes, followed by \<open>href\<close>; otherwise the website is \<open>href\<close> unchanged. Stripping removes
  only trailing slashes and leaves none. For the three configured sites the stripped URLs
  are https://www.irunner.com.tw, https://www.running.biji.co/index.php?q=competition
  (nothing to strip: the path and the query stay) and https://www.sponet.tw.
\<close>

theorem extract_website:
  "(getitem selectors (ascii ''name'') = Inr s1
    \<and> getitem selectors (ascii ''race_date'') = Inr s2
    \<and> getitem selectors (ascii ''location'') = Inr s3
    \<and> getitem selectors (ascii ''deadline'') = Inr s4
    \<and> getitem selectors (ascii ''status'') = Inr s5
    \<and> getitem selectors (ascii ''link'') = Inr s6
    \<and> select_one item s1 = Some n \<and> select_one item s2 = Some d
    \<and> select_one item s3 = Some l \<and> select_one item s6 = Some a
    \<longrightarrow> (\<exists>ev. extract_item url src selectors item = Inr (Some ev)
          \<and> (prefix [47] (tag_get a (ascii ''href'') [])
              \<longrightarrow> website ev = rstrip_chars [47] url @ tag_get a (ascii ''href'') [])
          \<and> (\<not> prefix [47] (tag_get a (ascii ''href'') [])
              \<longrightarrow> website ev = tag_get a (ascii ''href'') [])))
   \<and> (map_of (attrs a) (ascii ''href'') = None \<longrightarrow> tag_get a (ascii ''href'') [] = [])
   \<and> (\<exists>k. url = rstrip_chars [47] url @ replicate k 47)
   \<and> \<not> suffix [47] (rstrip_chars [47] url)
   \<and> rstrip_chars [47] (ascii ''https://www.irunner.com.tw/'') = ascii ''https://www.irunner.com.tw''
   \<and> rstrip_chars [47] (ascii ''https://www.running.biji.co/index.php?q=competition'')
       = ascii ''https://www.running.biji.co/index.php?q=competition''
   \<and> rstrip_chars [47] (ascii ''https://www.sponet.tw/'') = ascii ''https://www.sponet.tw''"
proof (intro conjI impI)
  assume h: "getitem selectors (ascii ''name'') = Inr s1
    \<and> getitem selectors (ascii ''race_date'') = Inr s2
    \<and> getitem selectors (ascii ''location'') = Inr s3
    \<and> getitem selectors (ascii ''deadline'') = Inr s4
    \<and> getitem selectors (ascii ''status'') = Inr s5
    \<and> getitem selectors (ascii ''link'') = Inr s6
    \<and> select_one item s1 = Some n \<and> select_one item s2 = Some d
    \<and> select_one item s3 = Some l \<and> select_one item s6 = Some a"
  then have k1: "getitem selectors (ascii ''name'') = Inr s1"
    and k2: "getitem selectors (ascii ''race_date'') = Inr s2"
    and k3: "getitem selectors (ascii ''location'') = Inr s3"
    and k4: "getitem selectors (ascii ''deadline'') = Inr s4"
    and k5: "getitem selectors (ascii ''status'') = Inr s5"
    and k6: "getitem selectors (ascii ''link'') = Inr s6"
    and p1: "select_one item s1 = Some n" and p2: "select_one item s2 = Some d"
    and p3: "select_one item s3 = Some l" and p4: "select_one item s6 = Some a"
    by simp_all
  have "\<exists>rd dl.
     normalize_date (get_text_strip d) = Inr rd
     \<and> (case select_one item s4 of None \<Rightarrow> Inr [] | Some t \<Rightarrow> normalize_date (get_text_strip t))
         = Inr dl
     \<and> extract_item url src selectors item =
         Inr (Some \<lparr>name = get_text_strip n, location = get_text_strip l, race_date = rd,
                    registration_deadline = dl,
                    registration_open =
                      guess_open_status
                        (case select_one item s5 of None \<Rightarrow> [] | Some s \<Rightarrow> get_text_strip s),
                    website =
                      (if tag_get a (ascii ''href'') [] \<noteq> [] \<and> prefix [47] (tag_get a (ascii ''href'') [])
                       then rstrip_chars [47] url @ tag_get a (ascii ''href'') []
                       else tag_get a (ascii ''href'') []),
                    source = src\<rparr>)"
    using k1 k2 k3 k4 k5 k6 p1 p2 p3 p4 by (rule extract_item_complete)
  then obtain ev where ev: "extract_item url src selectors item = Inr (Some ev)"
    and w: "website ev =
              (if tag_get a (ascii ''href'') [] \<noteq> [] \<and> prefix [47] (tag_get a (ascii ''href'') [])
               then rstrip_chars [47] url @ tag_get a (ascii ''href'') []
               else tag_get a (ascii ''href'') [])"
    by force
  have "prefix [47] (tag_get a (ascii ''href'') [])
          \<longrightarrow> website ev = rstrip_chars [47] url @ tag_get a (ascii ''href'') []"
    using w by auto
  moreover have "\<not> prefix [47] (tag_get a (ascii ''href'') [])
          \<longrightarrow> website ev = tag_get a (ascii ''href'') []"
    using w by auto
  ultimately show "\<exists>ev. extract_item url src selectors item = Inr (Some ev)
          \<and> (prefix [47] (tag_get a (ascii ''href'') [])
              \<longrightarrow> website ev = rstrip_chars [47] url @ tag_get a (ascii ''href'') [])
          \<and> (\<not> prefix [47] (tag_get a (ascii ''href'') [])
              \<longrightarrow> website ev = tag_get a (ascii ''href'') [])"
    using ev by blast
next
  assume "map_of (attrs a) (ascii ''href'') = None"
  then show "tag_get a (ascii ''href'') [] = []"
    by (simp add: tag_get_def)
next
  show "\<exists>k. url = rstrip_chars [47] url @ replicate k 47"
    using rstrip_chars_slash [of url] by (rule conjunct1)
  show "\<not> suffix [47] (rstrip_chars [47] url)"
    using rstrip_chars_slash [of url] by (rule conjunct2)
  show "rstrip_chars [47] (ascii ''https://www.irunner.com.tw/'') = ascii ''https://www.irunner.com.tw''"
    by (simp add: rstrip_chars_def ascii_def)
  show "rstrip_chars [47] (ascii ''https://www.running.biji.co/index.php?q=competition'')
       = ascii ''https://www.running.biji.co/index.php?q=competition''"
    by (simp add: rstrip_chars_def ascii_def)
  show "rstrip_chars [47] (ascii ''https://www.sponet.tw/'') = ascii ''https://www.sponet.tw''"
    by (simp add: rstrip_chars_def ascii_def)
qed

theorem extract_website_witness:
  "select_one sample_item (ascii ''a'') = Some (Tag [] [(ascii ''href'', ascii ''/race/1'')] [])
   \<and> tag_get (Tag [] [(ascii ''href'', ascii ''/race/1'')] []) (ascii ''href'') [] = ascii ''/race/1''
   \<and> prefix [47] (ascii ''/race/1'')
   \<and> (\<exists>ev. extract_item (ascii ''https://www.irunner.com.tw/'') (ascii ''iRunner'')
        [(ascii ''item'', ascii ''.race_list li''),
         (ascii ''name'', ascii ''.race_name''),
         (ascii ''race_date'', ascii ''.race_date''),
         (ascii ''location'', ascii ''.race_city''),
         (ascii ''deadline'', ascii ''.race_signup''),
         (ascii ''status'', ascii ''.race_status''),
         (ascii ''link'', ascii ''a'')]
        sample_item = Inr (Some ev)
      \<and> website ev = ascii ''https://www.irunner.com.tw/race/1'')"
  (is "?sa \<and> ?tg \<and> ?px \<and> (\<exists>ev. extract_item ?url ?src ?sels _ = _ \<and> _)")
proof -
  let ?a = "Tag [] [(ascii ''href'', ascii ''/race/1'')] []"
  have sa: ?sa by (simp add: sample_item_def select_one_def select_def ascii_def)
  have tg: ?tg by (simp add: tag_get_def)
  have px: ?px by (simp add: ascii_def)
  have h: "getitem ?sels (ascii ''name'') = Inr (ascii ''.race_name'')
    \<and> getitem ?sels (ascii ''race_date'') = Inr (ascii ''.race_date'')
    \<and> getitem ?sels (ascii ''location'') = Inr (ascii ''.race_city'')
    \<and> getitem ?sels (ascii ''deadline'') = Inr (ascii ''.race_signup'')
    \<and> getitem ?sels (ascii ''status'') = Inr (ascii ''.race_status'')
    \<and> getitem ?sels (ascii ''link'') = Inr (ascii ''a'')
    \<and> select_one sample_item (ascii ''.race_name'') = Some (Tag (ascii ''Taipei Marathon'') [] [])
    \<and> select_one sample_item (ascii ''.race_date'')
        = Some (Tag [50, 48, 50, 52, 0x5E74, 49, 50, 0x6708, 49, 53, 0x65E5] [] [])
    \<and> select_one sample_item (ascii ''.race_city'') = Some (Tag (ascii ''Taipei'') [] [])
    \<and> select_one sample_item (ascii ''a'') = Some ?a"
    by (simp add: getitem_def sample_item_def select_one_def select_def ascii_def)
  have "\<exists>ev. extract_item ?url ?src ?sels sample_item = Inr (Some ev)
          \<and> (prefix [47] (tag_get ?a (ascii ''href'') [])
              \<longrightarrow> website ev = rstrip_chars [47] ?url @ tag_get ?a (ascii ''href'') [])
          \<and> (\<not> prefix [47] (tag_get ?a (ascii ''href'') [])
              \<longrightarrow> website ev = tag_get ?a (ascii ''href'') [])"
    using extract_website [THEN conjunct1, THEN mp, OF h] .
  then obtain ev where ev: "extract_item ?url ?src ?sels sample_item = Inr (Some ev)"
    and w: "prefix [47] (tag_get ?a (ascii ''href'') [])
              \<longrightarrow> website ev = rstrip_chars [47] ?url @ tag_get ?a (ascii ''href'') []"
    by blast
  from w px have "website ev = rstrip_chars [47] ?url @ ascii ''/race/1''"
    by (simp only: tg)
  also have "\<dots> = ascii ''https://www.irunner.com.tw/race/1''"
    by (simp add: rstrip_chars_def ascii_def)
  finally have "website ev = ascii ''https://www.irunner.com.tw/race/1''" .
  with ev have "\<exists>ev. extract_item ?url ?src ?sels sample_item = Inr (Some ev)
      \<and> website ev = ascii ''https://www.irunner.com.tw/race/1''"
    by blast
  with sa tg px show ?thesis by (intro conjI)
qed

subsection \<open>The run\<close>

lemma fetch_loop_tolerated:
  "(\<forall>(n, f)\<in>set fetchers. \<forall>e. f net = Inl e \<longrightarrow> is_RequestException e) \<Longrightarrow>
   fetch_loop fetchers net events out =
     (out @ concat (map (\<lambda>(n, f). case f net of Inl e \<Rightarrow> [warning n e] | Inr got \<Rightarrow> []) fetchers),
      Inr (events @ concat (map (\<lambda>(n, f). case f net of Inl e \<Rightarrow> [] | Inr got \<Rightarrow> got) fetchers)))"
proof (induction fetchers arbitrary: events out)
  case Nil
  then show ?case by simp
next
  case (Cons nf fetchers)
  obtain n f where nf: "nf = (n, f)" by (cases nf) auto
  from Cons.prems have rest: "\<forall>(n, f)\<in>set fetchers. \<forall>e. f net = Inl e \<longrightarrow> is_RequestException e"
    by simp
  show ?case
  proof (cases "f net")
    case (Inl e)
    with Cons.prems nf have "is_RequestException e" by auto
    with Inl nf show ?thesis by (simp add: Cons.IH [OF rest])
  next
    case (Inr got)
    with nf show ?thesis by (simp add: Cons.IH [OF rest])
  qed
qed

lemma fetch_loop_propagates:
  assumes "\<forall>(n, f)\<in>set pre. \<forall>e. f net = Inl e \<longrightarrow> is_RequestException e"
    and "f net = Inl e" and "\<not> is_RequestException e"
  shows "fetch_loop (pre @ (n, f) # post) net events out =
     (out @ concat (map (\<lambda>(n, f). case f net of Inl e \<Rightarrow> [warning n e] | Inr got \<Rightarrow> []) pre),
      Inl e)"
  using assms(1)
proof (induction pre arbitrary: events out)
  case Nil
  with assms(2,3) show ?case by simp
next
  case (Cons mg pre)
  obtain m g where mg: "mg = (m, g)" by (cases mg) auto
  from Cons.prems have rest: "\<forall>(n, f)\<in>set pre. \<forall>e. f net = Inl e \<longrightarrow> is_RequestException e"
    by simp
  show ?case
  proof (cases "g net")
    case (Inl e')
    with Cons.prems mg have "is_RequestException e'" by auto
    with Inl mg show ?thesis by (simp add: Cons.IH [OF rest])
  next
    case (Inr got)
    with mg show ?thesis by (simp add: Cons.IH [OF rest])
  qed
qed

lemma main_fetched:
  "fetch_loop FETCHERS net [] [] = (out, Inr events) \<Longrightarrow>
   main net fs now a = finish fs now a out events"
  by (simp add: main_def)

lemma main_raised:
  "fetch_loop FETCHERS net [] [] = (out, Inl e) \<Longrightarrow>
   main net fs now a = \<lparr>printed = out, files = fs, raised = Some e\<rparr>"
  by (simp add: main_def)



lemma finish_nonempty:
  "events \<noteq> [] \<Longrightarrow>
   write_events fs now (output_path a) (dedupe_events events) = (fs1, r) \<Longrightarrow>
   finish fs now a out events =
     \<lparr>printed =
        out @ (case r of
                 None \<Rightarrow> [summary (length (dedupe_events events)) (output_path a)]
               | Some e \<Rightarrow> []),
      files = fs1, raised = r\<rparr>"
  by (cases r) (simp_all add: finish_def Let_def)








text \<open>
  C3. When every exception that a fetcher raises is a \<open>RequestException\<close>, \<open>main\<close> goes
  on after each failure: it continues with one warning for each failing fetcher, in
  their order, and with the events of the fetchers that returned, a failing fetcher
  adding none. The warning contains the \<open>__name__\<close> of the fetcher. When a fetcher raises
  an exception of another class, after fetchers that returned or failed with a
  \<open>RequestException\<close>, the run ends with that exception: only the warnings so far are
  printed and no file is written.
\<close>

theorem main_fetch_errors:
  "((\<forall>(n, f)\<in>set FETCHERS. \<forall>e. f net = Inl e \<longrightarrow> is_RequestException e)
    \<longrightarrow> main net fs now a =
          finish fs now a
            (concat (map (\<lambda>(n, f). case f net of Inl e \<Rightarrow> [warning n e] | Inr got \<Rightarrow> [])
               FETCHERS))
            (concat (map (\<lambda>(n, f). case f net of Inl e \<Rightarrow> [] | Inr got \<Rightarrow> got) FETCHERS)))
   \<and> (FETCHERS = pre @ (n, f) # post
      \<and> (\<forall>(n, f)\<in>set pre. \<forall>e. f net = Inl e \<longrightarrow> is_RequestException e)
      \<and> f net = Inl e \<and> \<not> is_RequestException e
      \<longrightarrow> main net fs now a =
            \<lparr>printed =
               concat (map (\<lambda>(n, f). case f net of Inl e \<Rightarrow> [warning n e] | Inr got \<Rightarrow> []) pre),
             files = fs, raised = Some e\<rparr>)
   \<and> map fst FETCHERS
       = [ascii ''fetch_irunner'', ascii ''fetch_running_biji'', ascii ''fetch_sponet'']
   \<and> sublist n (warning n e)"
proof (intro conjI impI)
  assume "\<forall>(n, f)\<in>set FETCHERS. \<forall>e. f net = Inl e \<longrightarrow> is_RequestException e"
  then have "fetch_loop FETCHERS net [] [] =
     ([] @ concat (map (\<lambda>(n, f). case f net of Inl e \<Rightarrow> [warning n e] | Inr got \<Rightarrow> []) FETCHERS),
      Inr ([] @ concat (map (\<lambda>(n, f). case f net of Inl e \<Rightarrow> [] | Inr got \<Rightarrow> got) FETCHERS)))"
    by (rule fetch_loop_tolerated)
  then show "main net fs now a =
          finish fs now a
            (concat (map (\<lambda>(n, f). case f net of Inl e \<Rightarrow> [warning n e] | Inr got \<Rightarrow> [])
               FETCHERS))
            (concat (map (\<lambda>(n, f). case f net of Inl e \<Rightarrow> [] | Inr got \<Rightarrow> got) FETCHERS))"
    by (simp add: main_fetched)
next
  assume h: "FETCHERS = pre @ (n, f) # post
      \<and> (\<forall>(n, f)\<in>set pre. \<forall>e. f net = Inl e \<longrightarrow> is_RequestException e)
      \<and> f net = Inl e \<and> \<not> is_RequestException e"
  then have "fetch_loop (pre @ (n, f) # post) net [] [] =
     ([] @ concat (map (\<lambda>(n, f). case f net of Inl e \<Rightarrow> [warning n e] | Inr got \<Rightarrow> []) pre),
      Inl e)"
    by (intro fetch_loop_propagates) simp_all
  with h have "fetch_loop FETCHERS net [] [] =
     (concat (map (\<lambda>(n, f). case f net of Inl e \<Rightarrow> [warning n e] | Inr got \<Rightarrow> []) pre), Inl e)"
    by simp
  then show "main net fs now a =
            \<lparr>printed =
               concat (map (\<lambda>(n, f). case f net of Inl e \<Rightarrow> [warning n e] | Inr got \<Rightarrow> []) pre),
             files = fs, raised = Some e\<rparr>"
    by (rule main_raised)
next
  show "map fst FETCHERS
       = [ascii ''fetch_irunner'', ascii ''fetch_running_biji'', ascii ''fetch_sponet'']"
    by (simp add: FETCHERS_def)
  show "sublist n (warning n e)"
    unfolding warning_def by (rule sublist_appendI)
qed

lemma fetch_second_down:
  "fetch_irunner net_second_down = Inr [sample_event]"
  "fetch_running_biji net_second_down = Inl (RequestException (ascii ''timed out''))"
  "fetch_sponet net_second_down = Inr []"
proof -
  show "fetch_irunner net_second_down = Inr [sample_event]"
    by (simp add: fetch_irunner_def extract_generic_def net_second_down_def ok_response_def
        raise_for_status_def and_then_def getitem_def select_sample_page
        nameless_item_skipped sample_item_event)
  show "fetch_running_biji net_second_down = Inl (RequestException (ascii ''timed out''))"
    by (simp add: fetch_running_biji_def extract_generic_def net_second_down_def and_then_def
        ascii_def)
  show "fetch_sponet net_second_down = Inr []"
    by (simp add: fetch_sponet_def extract_generic_def net_second_down_def ok_response_def
        raise_for_status_def and_then_def getitem_def select_def ascii_def)
qed

lemma fetch_parser_fails:
  "fetch_irunner net_parser_fails = Inl (RequestException (ascii ''timed out''))"
  "fetch_running_biji net_parser_fails = Inl (OtherError (ascii ''ParserRejectedMarkup''))"
proof -
  show "fetch_irunner net_parser_fails = Inl (RequestException (ascii ''timed out''))"
    by (simp add: fetch_irunner_def extract_generic_def net_parser_fails_def and_then_def)
  show "fetch_running_biji net_parser_fails = Inl (OtherError (ascii ''ParserRejectedMarkup''))"
    by (simp add: fetch_running_biji_def extract_generic_def net_parser_fails_def ok_response_def
        raise_for_status_def and_then_def ascii_def)
qed

theorem main_fetch_errors_witness:
  "fetch_irunner net_second_down = Inr [sample_event]
   \<and> fetch_running_biji net_second_down = Inl (RequestException (ascii ''timed out''))
   \<and> fetch_sponet net_second_down = Inr []
   \<and> main net_second_down empty_disk (ascii ''2024-06-01T12:00:00+08:00'')
        \<lparr>output_path = ascii ''out.json'', fallback_path = ascii ''old.json''\<rparr>
     = \<lparr>printed = [warning (ascii ''fetch_running_biji'') (RequestException (ascii ''timed out'')),
                   summary 1 (ascii ''out.json'')],
        files = fst (write_events empty_disk (ascii ''2024-06-01T12:00:00+08:00'')
                       (ascii ''out.json'') [sample_event]),
        raised = None\<rparr>
   \<and> fetch_irunner net_parser_fails = Inl (RequestException (ascii ''timed out''))
   \<and> fetch_running_biji net_parser_fails = Inl (OtherError (ascii ''ParserRejectedMarkup''))
   \<and> main net_parser_fails empty_disk (ascii ''2024-06-01T12:00:00+08:00'')
        \<lparr>output_path = ascii ''out.json'', fallback_path = ascii ''old.json''\<rparr>
     = \<lparr>printed = [warning (ascii ''fetch_irunner'') (RequestException (ascii ''timed out''))],
        files = empty_disk,
        raised = Some (OtherError (ascii ''ParserRejectedMarkup''))\<rparr>"
  (is "?a1 \<and> ?a2 \<and> ?a3 \<and> main _ _ ?now ?a = ?runA \<and> ?b1 \<and> ?b2 \<and> main _ _ _ _ = ?runB")
proof -
  note a = fetch_second_down
  note b = fetch_parser_fails
  have ha: "\<forall>(n, f)\<in>set FETCHERS. \<forall>e. f net_second_down = Inl e \<longrightarrow> is_RequestException e"
    by (simp add: FETCHERS_def a)
  have r: "\<not> refused empty_disk (ascii ''out.json'')"
    by (simp add: empty_disk_def)
  have w: "write_events empty_disk ?now (output_path ?a) (dedupe_events [sample_event]) =
      (fst (write_events empty_disk ?now (ascii ''out.json'') [sample_event]), None)"
    by (simp add: dedupe_events_def write_events_written [OF r sample_event_encodable])
  have "main net_second_down empty_disk ?now ?a =
          finish empty_disk ?now ?a
            (concat (map (\<lambda>(n, f). case f net_second_down of Inl e \<Rightarrow> [warning n e] | Inr got \<Rightarrow> [])
               FETCHERS))
            (concat (map (\<lambda>(n, f). case f net_second_down of Inl e \<Rightarrow> [] | Inr got \<Rightarrow> got)
               FETCHERS))"
    using main_fetch_errors [THEN conjunct1, THEN mp, OF ha] .
  also have "\<dots> = finish empty_disk ?now ?a
      [warning (ascii ''fetch_running_biji'') (RequestException (ascii ''timed out''))]
      [sample_event]"
    by (simp add: FETCHERS_def a)
  also have "\<dots> = ?runA"
    using finish_nonempty [OF _ w, of "[warning (ascii ''fetch_running_biji'')
        (RequestException (ascii ''timed out''))]"]
    by (simp add: dedupe_events_def)
  finally have ra: "main net_second_down empty_disk ?now ?a = ?runA" .
  have fb: "FETCHERS = [(ascii ''fetch_irunner'', fetch_irunner)]
              @ (ascii ''fetch_running_biji'', fetch_running_biji)
              # [(ascii ''fetch_sponet'', fetch_sponet)]"
    by (simp add: FETCHERS_def)
  have hb: "\<forall>(n, f)\<in>set [(ascii ''fetch_irunner'', fetch_irunner)].
              \<forall>e. f net_parser_fails = Inl e \<longrightarrow> is_RequestException e"
    by (simp add: b)
  have nb: "\<not> is_RequestException (OtherError (ascii ''ParserRejectedMarkup''))"
    by simp
  have "main net_parser_fails empty_disk ?now ?a =
          \<lparr>printed =
             concat (map (\<lambda>(n, f). case f net_parser_fails of Inl e \<Rightarrow> [warning n e] | Inr got \<Rightarrow> [])
               [(ascii ''fetch_irunner'', fetch_irunner)]),
           files = empty_disk, raised = Some (OtherError (ascii ''ParserRejectedMarkup''))\<rparr>"
    using main_fetch_errors [THEN conjunct2, THEN conjunct1, THEN mp,
        OF conjI [OF fb conjI [OF hb conjI [OF b(2) nb]]]] .
  also have "\<dots> = ?runB"
    by (simp add: b)
  finally have rb: "main net_parser_fails empty_disk ?now ?a = ?runB" .
  from a b ra rb show ?thesis by (intro conjI)
qed

end
